theory Spec2Isabelle
  imports Complex_Main "HOL-Library.Sublist"
begin

section \<open>Numbers, dates and points\<close>

text \<open>
  JavaScript numbers are modelled as reals: every quantity below (coordinates in degrees,
  metres, seconds) is a finite double in the program, and the model computes with the exact
  value. Where the program divides by a quantity that can be zero, the IEEE result
  (an infinity or NaN) is written out case by case instead of using the division of HOL.
  Rounding is not modelled; the one place where it can turn a finite real result into NaN,
  the great-circle distance of two nearly antipodal places, is described with that function.
  A \<open>Date\<close> is modelled by its time value, the integer number of milliseconds that
  \<open>getTime()\<close> returns; subtracting two dates yields the difference of the time values.
\<close>

type_synonym date = int

text \<open>
  Records keep the field names of the objects they model. Where two kinds of object use
  the same field name with different contents the second one gets a prefix
  (\<open>route_id\<close>, \<open>areaStartTime\<close>, \<open>dataIsTracking\<close>, \<open>gpsCallbacks\<close>). An object whose
  fields include those of another one extends its record.
\<close>

record latlng =
  lat :: real
  lng :: real

record point = latlng +
  timestamp :: date
  accuracy :: real

section \<open>storage.js: path simplification\<close>

text \<open>\<open>StorageManager._pointToLineDistance(point, lineStart, lineEnd)\<close>.\<close>

definition pointToLineDistance :: "point \<Rightarrow> point \<Rightarrow> point \<Rightarrow> real" where
  "pointToLineDistance pt lineStart lineEnd =
     (let A = lat pt - lat lineStart;
          B = lng pt - lng lineStart;
          C = lat lineEnd - lat lineStart;
          D = lng lineEnd - lng lineStart;
          dot = A * C + B * D;
          lenSq = C * C + D * D;
          param = (if lenSq \<noteq> 0 then dot / lenSq else - 1);
          xx = (if param < 0 then lat lineStart
                else if param > 1 then lat lineEnd
                else lat lineStart + param * C);
          yy = (if param < 0 then lng lineStart
                else if param > 1 then lng lineEnd
                else lng lineStart + param * D);
          dx = lat pt - xx;
          dy = lng pt - yy
      in sqrt (dx * dx + dy * dy))"

text \<open>
  The \<open>for\<close> loop of \<open>_simplifyPath\<close>: \<open>i\<close> runs over \<open>1 .. length - 2\<close>, and the
  pair \<open>(maxDistance, maxIndex)\<close> starts as \<open>(0, 0)\<close>.
\<close>

definition farthestStep :: "point list \<Rightarrow> real \<times> nat \<Rightarrow> nat \<Rightarrow> real \<times> nat" where
  "farthestStep points acc i =
     (let distance = pointToLineDistance (points ! i) (points ! 0) (points ! (length points - 1))
      in if distance > fst acc then (distance, i) else acc)"

definition farthest :: "point list \<Rightarrow> real \<times> nat" where
  "farthest points = foldl (farthestStep points) (0, 0) [1 ..< length points - 1]"

text \<open>
  \<open>StorageManager._simplifyPath(points, tolerance)\<close>. The function calls itself on
  \<open>points.slice(0, maxIndex + 1)\<close> and \<open>points.slice(maxIndex)\<close>; the result \<open>None\<close>
  stands for a call that does not return.
\<close>

partial_function (option) simplifyPath :: "point list \<Rightarrow> real \<Rightarrow> point list option" where
  "simplifyPath points tolerance =
     (if length points \<le> 2 then Some points
      else
        let maxDistance = fst (farthest points);
            maxIndex = snd (farthest points)
        in if maxDistance > tolerance then
             Option.bind (simplifyPath (take (maxIndex + 1) points) tolerance) (\<lambda>left.
             Option.bind (simplifyPath (drop maxIndex points) tolerance) (\<lambda>right.
               Some (butlast left @ right)))
           else Some [points ! 0, points ! (length points - 1)])"

section \<open>utils.js: great-circle distance\<close>

text \<open>
  \<open>Math.atan2(y, x)\<close> on finite arguments. The two arguments passed by
  \<open>calculateDistance\<close> are square roots, so only the first and the last three branches
  are reached from this program.
\<close>

definition Math_atan2 :: "real \<Rightarrow> real \<Rightarrow> real" where
  "Math_atan2 y x =
     (if x > 0 then arctan (y / x)
      else if x < 0 then (if y \<ge> 0 then arctan (y / x) + pi else arctan (y / x) - pi)
      else if y > 0 then pi / 2
      else if y < 0 then - (pi / 2)
      else 0)"

text \<open>
  \<open>Utils.calculateDistance(lat1, lng1, lat2, lng2)\<close>, the haversine formula, evaluated
  over the reals. There the term \<open>a\<close> lies between 0 and 1 and the result is a distance
  between 0 and half the circumference. The program evaluates the same formula in double
  precision: the result differs from the real one by rounding, and for two places that are
  nearly antipodal the rounded \<open>a\<close> can exceed 1, in which case \<open>Math.sqrt(1 - a)\<close> and
  with it the returned distance is NaN. The model has no such case. The decisions that are
  evaluated below at concrete places use the same place twice (distance 0 in both
  evaluations) or the origin and the point at latitude 0, longitude 90 (a quarter of the
  equator, about 10007543 m in both), far from the bounds of 50 m and 55.6 m/s that the
  distance is compared with. The general statements on the speed test with an elapsed
  time that is not positive hold for every distance that is non-negative or NaN.
\<close>

definition calculateDistance :: "real \<Rightarrow> real \<Rightarrow> real \<Rightarrow> real \<Rightarrow> real" where
  "calculateDistance lat1 lng1 lat2 lng2 =
     (let R = 6371000;
          dLat = (lat2 - lat1) * pi / 180;
          dLng = (lng2 - lng1) * pi / 180;
          a = sin (dLat / 2) * sin (dLat / 2) +
              cos (lat1 * pi / 180) * cos (lat2 * pi / 180) *
              sin (dLng / 2) * sin (dLng / 2);
          c = 2 * Math_atan2 (sqrt a) (sqrt (1 - a))
      in R * c)"

section \<open>gps.js: the location filter\<close>

text \<open>
  The quotient \<open>distance / timeDiff\<close> is the one division of the filter whose divisor can
  be zero. A JavaScript division by zero does not fail: it yields an infinity, or NaN for
  \<open>0 / 0\<close>, and every comparison with NaN is false.
\<close>

datatype jsnum = Finite real | PosInfinity | NegInfinity | NaN

definition js_div :: "real \<Rightarrow> real \<Rightarrow> jsnum" where
  "js_div x y =
     (if y \<noteq> 0 then Finite (x / y)
      else if x > 0 then PosInfinity
      else if x < 0 then NegInfinity
      else NaN)"

fun js_gt :: "jsnum \<Rightarrow> real \<Rightarrow> bool" where
  "js_gt (Finite x) y = (x > y)"
| "js_gt PosInfinity y = True"
| "js_gt NegInfinity y = False"
| "js_gt NaN y = False"

text \<open>
  The object \<open>locationData\<close> built for an accepted fix: the fields of a point, the speed
  and the flag \<open>isTracking\<close> (named \<open>dataIsTracking\<close> here, the tracker has a field of
  the same name).
\<close>

record locationData = point +
  speed :: real
  dataIsTracking :: bool

text \<open>
  The argument of the \<open>onError\<close> callback: the object with code \<open>'LOW_ACCURACY'\<close> built
  by the filter, or the object built from a sensor error with its numeric code.
\<close>

datatype errorData = LOW_ACCURACY real | SensorError nat

text \<open>
  What a call of the tracker does besides changing its fields: the lines it writes to the
  console and the callbacks it invokes, in order.
\<close>

datatype effect =
    Warn_lowAccuracy real
  | Warn_abnormalJump jsnum real
  | Log_alreadyTracking
  | Log_trackingStarted
  | Log_trackingStopped
  | Log_paused bool
  | Error_startFailed
  | Error_gps errorData
  | Call_onUpdate locationData
  | Call_onError errorData
  | Call_onStart
  | Call_onStop
  | Call_onPause bool

text \<open>Which of the five callbacks have been installed (\<open>null\<close> until \<open>setCallbacks\<close>).\<close>

record callbacks =
  onUpdate :: bool
  onError :: bool
  onStart :: bool
  onStop :: bool
  onPause :: bool

record GPSTracker =
  watchId :: "nat option"
  isTracking :: bool
  isPaused :: bool
  lastValidLocation :: "locationData option"
  locationUpdateCount :: nat
  gpsTrackingStartTime :: "date option"
  gpsCallbacks :: callbacks

definition GPSTracker_new :: GPSTracker where
  "GPSTracker_new =
     \<lparr>watchId = None, isTracking = False, isPaused = False, lastValidLocation = None,
      locationUpdateCount = 0, gpsTrackingStartTime = None,
      gpsCallbacks = \<lparr>onUpdate = False, onError = False, onStart = False, onStop = False,
                      onPause = False\<rparr>\<rparr>"

text \<open>
  \<open>GPSTracker._onLocationUpdate(position)\<close>. The four coordinates of \<open>position.coords\<close>
  are the first four arguments (\<open>speed\<close> is \<open>null\<close> when the sensor does not report it),
  \<open>now\<close> is the value of \<open>new Date()\<close> read at entry.
\<close>

definition gps_onLocationUpdate ::
  "real \<Rightarrow> real \<Rightarrow> real \<Rightarrow> real option \<Rightarrow> date \<Rightarrow> GPSTracker \<Rightarrow> GPSTracker \<times> effect list" where
  "gps_onLocationUpdate lat1 lng1 acc spd now g0 =
     (let g = g0\<lparr>locationUpdateCount := locationUpdateCount g0 + 1\<rparr>;
          accuracyThreshold = (if locationUpdateCount g < 5 then 200 else 100 :: real);
          locationData = \<lparr>lat = lat1, lng = lng1, timestamp = now, accuracy = acc,
                          speed = (case spd of None \<Rightarrow> 0 | Some v \<Rightarrow> v),
                          dataIsTracking = (isTracking g \<and> \<not> isPaused g)\<rparr>;
          accept = (g\<lparr>lastValidLocation := Some locationData\<rparr>,
                    (if onUpdate (gpsCallbacks g) then [Call_onUpdate locationData] else []))
      in if acc > accuracyThreshold then
           (g, Warn_lowAccuracy acc #
               (if onError (gpsCallbacks g) then [Call_onError (LOW_ACCURACY acc)] else []))
         else
           (case lastValidLocation g of
              None \<Rightarrow> accept
            | Some prev \<Rightarrow>
                let distance = calculateDistance (lat prev) (lng prev) lat1 lng1;
                    timeDiff = real_of_int (now - timestamp prev) / 1000;
                    calculatedSpeed = js_div distance timeDiff
                in if js_gt calculatedSpeed (556 / 10) then
                     (g, [Warn_abnormalJump calculatedSpeed distance])
                   else accept))"

text \<open>
  \<open>GPSTracker.stopTracking()\<close>. \<open>if (this.watchId)\<close> is false for the identifier \<open>0\<close>
  as well as for \<open>null\<close>. The result is the new tracker, the effects and the returned flag.
\<close>

definition gps_stopTracking :: "GPSTracker \<Rightarrow> GPSTracker \<times> effect list \<times> bool" where
  "gps_stopTracking g =
     (if \<not> isTracking g then (g, [], False)
      else
        let g1 = (case watchId g of
                    None \<Rightarrow> g
                  | Some w \<Rightarrow> if w \<noteq> 0 then g\<lparr>watchId := None\<rparr> else g);
            g2 = g1\<lparr>isTracking := False, isPaused := False, locationUpdateCount := 0,
                    lastValidLocation := None\<rparr>
        in (g2, (if onStop (gpsCallbacks g2) then [Call_onStop] else []) @ [Log_trackingStopped],
            True))"

text \<open>
  \<open>GPSTracker._handleError(error)\<close>: log, report through \<open>onError\<close> when installed, and
  stop tracking on code \<open>1\<close> (permission denied).
\<close>

definition gps_handleError :: "errorData \<Rightarrow> GPSTracker \<Rightarrow> GPSTracker \<times> effect list" where
  "gps_handleError err g =
     (let reported = Error_gps err # (if onError (gpsCallbacks g) then [Call_onError err] else [])
      in if err = SensorError 1 then
           (case gps_stopTracking g of (g', effs, _) \<Rightarrow> (g', reported @ effs))
         else (g, reported))"

text \<open>
  \<open>GPSTracker.startTracking()\<close>. \<open>geolocation\<close> tells whether
  \<open>navigator.geolocation\<close> exists; \<open>watch\<close> is the identifier returned by
  \<open>watchPosition\<close>, or \<open>None\<close> when that call throws; \<open>now\<close> is \<open>new Date()\<close>.
\<close>

definition gps_startTracking ::
  "bool \<Rightarrow> nat option \<Rightarrow> date \<Rightarrow> GPSTracker \<Rightarrow> GPSTracker \<times> effect list \<times> bool" where
  "gps_startTracking geolocation watch now g =
     (if isTracking g then (g, [Log_alreadyTracking], False)
      else if \<not> geolocation then
        (case gps_handleError (SensorError 0) g of (g', effs) \<Rightarrow> (g', effs, False))
      else
        (case watch of
           Some w \<Rightarrow>
             let g1 = g\<lparr>watchId := Some w, isTracking := True, isPaused := False,
                        gpsTrackingStartTime := Some now, locationUpdateCount := 0\<rparr>
             in (g1, Log_trackingStarted # (if onStart (gpsCallbacks g1) then [Call_onStart] else []),
                 True)
         | None \<Rightarrow>
             (case gps_handleError (SensorError 0) g of
                (g', effs) \<Rightarrow> (g', Log_trackingStarted # Error_startFailed # effs, False))))"

text \<open>\<open>GPSTracker.pauseTracking()\<close>.\<close>

definition gps_pauseTracking :: "GPSTracker \<Rightarrow> GPSTracker \<times> effect list \<times> bool" where
  "gps_pauseTracking g =
     (if \<not> isTracking g then (g, [], False)
      else
        let g1 = g\<lparr>isPaused := \<not> isPaused g\<rparr>
        in (g1, (if onPause (gpsCallbacks g1) then [Call_onPause (isPaused g1)] else []) @
                [Log_paused (isPaused g1)], True))"

text \<open>\<open>GPSTracker.setCallbacks(callbacks)\<close> as the application calls it: all five.\<close>

definition gps_setCallbacks :: "GPSTracker \<Rightarrow> GPSTracker" where
  "gps_setCallbacks g =
     g\<lparr>gpsCallbacks := \<lparr>onUpdate = True, onError = True, onStart = True, onStop = True,
                         onPause = True\<rparr>\<rparr>"

section \<open>app.js: routes and stay areas\<close>

record route =
  route_id :: string
  points :: "point list"
  startTime :: date
  endTime :: "date option"
  distance :: real

text \<open>
  A stay area. \<open>drawn\<close> is the flag that \<open>checkStayArea\<close> sets; an object without that
  property (\<open>undefined\<close>, which \<open>!area.drawn\<close> treats as false) has \<open>drawn = False\<close>.
\<close>

record stayArea = latlng +
  areaStartTime :: date
  areaEndTime :: date
  duration :: int
  drawn :: bool

definition STAY_THRESHOLD :: int where
  "STAY_THRESHOLD = 3600000"

definition STAY_RADIUS :: real where
  "STAY_RADIUS = 50"

text \<open>
  The loop of \<open>checkStayArea\<close>: \<open>i\<close> runs from \<open>length - 1\<close> down to \<open>0\<close> and stops at
  the first area within the radius. \<open>findStayArea areas lat1 lng1 n\<close> scans the indices
  below \<open>n\<close>.
\<close>

fun findStayArea :: "stayArea list \<Rightarrow> real \<Rightarrow> real \<Rightarrow> nat \<Rightarrow> nat option" where
  "findStayArea areas lat1 lng1 0 = None"
| "findStayArea areas lat1 lng1 (Suc i) =
     (if calculateDistance (lat (areas ! i)) (lng (areas ! i)) lat1 lng1 \<le> STAY_RADIUS
      then Some i
      else findStayArea areas lat1 lng1 i)"

text \<open>
  \<open>DaedongMapApp.checkStayArea(lat, lng, timestamp)\<close> on the list \<open>this.stayAreas\<close>.
  Where the flag is set the program also calls \<open>this.map.drawStayArea(area)\<close>.
\<close>

definition checkStayArea :: "stayArea list \<Rightarrow> real \<Rightarrow> real \<Rightarrow> date \<Rightarrow> stayArea list" where
  "checkStayArea areas lat1 lng1 ts =
     (case findStayArea areas lat1 lng1 (length areas) of
        Some i \<Rightarrow>
          let area = areas ! i;
              area1 = area\<lparr>areaEndTime := ts\<rparr>;
              area2 = area1\<lparr>duration := areaEndTime area1 - areaStartTime area1\<rparr>;
              area3 = (if duration area2 \<ge> STAY_THRESHOLD \<and> \<not> drawn area2
                       then area2\<lparr>drawn := True\<rparr> else area2)
          in areas[i := area3]
      | None \<Rightarrow>
          areas @ [\<lparr>lat = lat1, lng = lng1, areaStartTime = ts, areaEndTime = ts,
                    duration = 0, drawn = False\<rparr>])"

text \<open>
  The object that \<open>saveData\<close> hands to the storage manager: the finished routes, the stay
  areas and the total distance. (The later version of app.js adds the live route under
  \<open>currentRoute\<close>; the serializer never reads that property.)
\<close>

record snapshot =
  routes :: "route list"
  stayAreas :: "stayArea list"
  totalDistance :: real

text \<open>
  The fields of \<open>DaedongMapApp\<close> that hold the recorded data: those of the snapshot and
  the state of the live session. The calls into the map, the user interface and the
  debounced save do not change these fields.
\<close>

record app = snapshot +
  currentRoute :: "route option"
  lastPosition :: "latlng option"
  trackingStartTime :: "date option"

definition app_new :: app where
  "app_new = \<lparr>routes = [], stayAreas = [], totalDistance = 0, currentRoute = None,
              lastPosition = None, trackingStartTime = None\<rparr>"

text \<open>\<open>DaedongMapApp.saveData()\<close>: the argument passed to \<open>saveToStorage\<close>.\<close>

definition app_saveData :: "app \<Rightarrow> snapshot" where
  "app_saveData a = \<lparr>routes = routes a, stayAreas = stayAreas a, totalDistance = totalDistance a\<rparr>"

text \<open>\<open>DaedongMapApp.onLocationUpdate(data)\<close>.\<close>

definition app_onLocationUpdate :: "locationData \<Rightarrow> app \<Rightarrow> app" where
  "app_onLocationUpdate data a =
     (case currentRoute a of
        None \<Rightarrow> a
      | Some r \<Rightarrow>
          if \<not> dataIsTracking data then a
          else
            let pt = \<lparr>lat = lat data, lng = lng data, timestamp = timestamp data,
                      accuracy = accuracy data\<rparr>;
                r1 = r\<lparr>points := points r @ [pt]\<rparr>;
                a1 = a\<lparr>currentRoute := Some r1\<rparr>;
                a2 = (case lastPosition a1 of
                        None \<Rightarrow> a1
                      | Some lp \<Rightarrow>
                          let d = calculateDistance (lat lp) (lng lp) (lat data) (lng data)
                          in a1\<lparr>currentRoute := Some (r1\<lparr>distance := distance r1 + d\<rparr>),
                                totalDistance := totalDistance a1 + d\<rparr>);
                a3 = a2\<lparr>lastPosition := Some \<lparr>lat = lat data, lng = lng data\<rparr>\<rparr>
            in a3\<lparr>stayAreas := checkStayArea (stayAreas a3) (lat data) (lng data) (timestamp data)\<rparr>)"

text \<open>
  \<open>DaedongMapApp.onTrackingStart()\<close>; \<open>now\<close> is \<open>new Date()\<close> and \<open>fresh\<close> the string
  returned by \<open>Utils.generateId()\<close>.
\<close>

definition app_onTrackingStart :: "date \<Rightarrow> string \<Rightarrow> app \<Rightarrow> app" where
  "app_onTrackingStart now fresh a =
     a\<lparr>trackingStartTime := Some now,
       currentRoute := Some \<lparr>route_id = fresh, points = [], startTime = now, endTime = None,
                             distance = 0\<rparr>\<rparr>"

text \<open>\<open>DaedongMapApp.onTrackingStop()\<close>.\<close>

definition app_onTrackingStop :: "date \<Rightarrow> app \<Rightarrow> app" where
  "app_onTrackingStop now a =
     (let a1 = (case currentRoute a of
                  None \<Rightarrow> a
                | Some r \<Rightarrow>
                    if length (points r) > 1
                    then a\<lparr>routes := routes a @ [r\<lparr>endTime := Some now\<rparr>]\<rparr>
                    else a)
      in a1\<lparr>currentRoute := None, lastPosition := None, trackingStartTime := None\<rparr>)"

text \<open>
  \<open>DaedongMapApp.clearAllRoutes()\<close> after the user has confirmed (the later version of
  app.js, which also drops the live route).
\<close>

definition app_clearAllRoutes :: "app \<Rightarrow> app" where
  "app_clearAllRoutes a = a\<lparr>routes := [], stayAreas := [], totalDistance := 0, currentRoute := None\<rparr>"

text \<open>
  The sensor delivers fixes one after the other; those that pass the two-second throttle
  reach \<open>_onLocationUpdate\<close>. A delivered fix is the tuple of latitude, longitude,
  accuracy, speed and the time read on arrival.
\<close>

type_synonym delivery = "real \<times> real \<times> real \<times> real option \<times> date"

fun gps_deliver :: "delivery list \<Rightarrow> GPSTracker \<Rightarrow> GPSTracker \<times> effect list" where
  "gps_deliver [] g = (g, [])"
| "gps_deliver ((lat1, lng1, acc, spd, now) # ds) g =
     (case gps_onLocationUpdate lat1 lng1 acc spd now g of
        (g1, effs1) \<Rightarrow> (case gps_deliver ds g1 of (g2, effs2) \<Rightarrow> (g2, effs1 @ effs2)))"

text \<open>How many of the effects are accepted fixes handed to \<open>onUpdate\<close>.\<close>

fun isAccepted :: "effect \<Rightarrow> bool" where
  "isAccepted (Call_onUpdate d) = True"
| "isAccepted e = False"

definition acceptedCount :: "effect list \<Rightarrow> nat" where
  "acceptedCount effs = length (filter isAccepted effs)"

text \<open>
  The threshold as the specification words it, selected by the number of fixes accepted so
  far.
\<close>

definition spec_accuracyThreshold :: "nat \<Rightarrow> real" where
  "spec_accuracyThreshold acceptedCountSoFar = (if acceptedCountSoFar < 5 then 200 else 100)"

text \<open>A tracker that has just been started by the application, and fixes used as examples.\<close>

definition startedTracker :: GPSTracker where
  "startedTracker = fst (gps_startTracking True (Some 1) 0 (gps_setCallbacks GPSTracker_new))"

definition goodFixes :: "delivery list" where
  "goodFixes = [(0, 0, 10, None, 10000), (0, 0, 10, None, 20000), (0, 0, 10, None, 30000),
                (0, 0, 10, None, 40000)]"

definition poorFixes :: "delivery list" where
  "poorFixes = [(0, 0, 500, None, 10000), (0, 0, 500, None, 20000), (0, 0, 500, None, 30000),
                (0, 0, 500, None, 40000)]"

text \<open>The two ways a fix is turned down, and the reports made to the owner of the tracker.\<close>

fun isSpeedRejection :: "effect \<Rightarrow> bool" where
  "isSpeedRejection (Warn_abnormalJump s d) = True"
| "isSpeedRejection e = False"

fun isAccuracyRejection :: "effect \<Rightarrow> bool" where
  "isAccuracyRejection (Warn_lowAccuracy a) = True"
| "isAccuracyRejection e = False"

fun isReport :: "effect \<Rightarrow> bool" where
  "isReport (Call_onError e) = True"
| "isReport e = False"

text \<open>The started tracker after it has accepted a first fix at the origin.\<close>

definition trackerAfterFirstFix :: GPSTracker where
  "trackerAfterFirstFix = fst (gps_onLocationUpdate 0 0 10 None 10000 startedTracker)"

text \<open>Three points on one meridian, used as an example path.\<close>

definition meridianPath :: "point list" where
  "meridianPath =
     [\<lparr>lat = 0, lng = 0, timestamp = 0, accuracy = 10\<rparr>,
      \<lparr>lat = 1, lng = 0, timestamp = 1000, accuracy = 10\<rparr>,
      \<lparr>lat = 2, lng = 0, timestamp = 2000, accuracy = 10\<rparr>]"

text \<open>
  A run of the detector: the accepted fixes reach \<open>checkStayArea\<close> one after the other,
  each as latitude, longitude and timestamp.
\<close>

type_synonym observation = "real \<times> real \<times> date"

fun observe :: "observation list \<Rightarrow> stayArea list \<Rightarrow> stayArea list" where
  "observe [] areas = areas"
| "observe ((lat1, lng1, ts) # obs) areas = observe obs (checkStayArea areas lat1 lng1 ts)"

text \<open>
  What every list of areas satisfies, whether it was built by \<open>checkStayArea\<close> or restored
  from the store after having been built so: the duration of an area is the span between
  its two times, no area ends after the time \<open>t\<close>, and an area that is flagged has
  reached the threshold. A restored area has no flag, whatever its duration.
\<close>

definition areasWellFormed :: "stayArea list \<Rightarrow> date \<Rightarrow> bool" where
  "areasWellFormed areas t =
     list_all (\<lambda>a. duration a = areaEndTime a - areaStartTime a \<and> areaEndTime a \<le> t \<and>
                    (if drawn a then STAY_THRESHOLD \<le> duration a else True)) areas"

text \<open>
  How a later list of areas relates to an earlier one: the earlier areas are still there,
  at the same index and place, and have not lost duration or their flag.
\<close>

definition areaAdvanced :: "stayArea \<Rightarrow> stayArea \<Rightarrow> bool" where
  "areaAdvanced a b =
     (lat b = lat a \<and> lng b = lng a \<and> areaStartTime b = areaStartTime a \<and>
      duration a \<le> duration b \<and> (if drawn a then drawn b else True))"

definition areasAdvanced :: "stayArea list \<Rightarrow> stayArea list \<Rightarrow> bool" where
  "areasAdvanced A B = (length A \<le> length B \<and> list_all2 areaAdvanced A (take (length A) B))"

text \<open>
  How the areas at some moment of a run relate to the list \<open>start\<close> the run began with
  (the restored areas, or none): each area is either exactly as it was at the start, or
  flagged exactly when its duration has reached the threshold.
\<close>

definition areasSettled :: "stayArea list \<Rightarrow> stayArea list \<Rightarrow> bool" where
  "areasSettled start areas =
     list_all (\<lambda>i. (i < length start \<and> areas ! i = start ! i) \<or>
                    drawn (areas ! i) = (STAY_THRESHOLD \<le> duration (areas ! i)))
       [0..<length areas]"

definition stayObservations :: "observation list" where
  "stayObservations = [(0, 0, 0), (0, 0, 1800000), (0, 0, 3600000), (0, 0, 3700000)]"

text \<open>
  An example of a run after a reload: the list restored at start-up holds one area that
  had lasted an hour, and two fixes follow, one a quarter of the equator away and one at
  the place of the area.
\<close>

definition restoredAreas :: "stayArea list" where
  "restoredAreas =
     [\<lparr>lat = 0, lng = 0, areaStartTime = 0, areaEndTime = 3600000, duration = 3600000,
       drawn = False\<rparr>]"

definition laterObservations :: "observation list" where
  "laterObservations = [(0, 90, 3650000), (0, 0, 3700000)]"

section \<open>storage.js: values, texts and the browser's store\<close>

text \<open>
  The values the storage code handles without knowing their type: what \<open>JSON.parse\<close>
  returns, and the objects built from it. \<open>JDate v\<close> is the object \<open>new Date(v)\<close>, an
  object is the list of its properties in insertion order.
\<close>

datatype jsval =
    JUndefined
  | JNull
  | JBool bool
  | JNum real
  | JStr string
  | JDate jsval
  | JArr "jsval list"
  | JObj "(string \<times> jsval) list"

text \<open>
  A text kept in \<open>localStorage\<close>. \<open>Json v\<close> is the text \<open>JSON.stringify\<close> produces for
  the value \<open>v\<close>, which \<open>JSON.parse\<close> reads back as \<open>v\<close>; \<open>Malformed s\<close> is a text \<open>s\<close>
  that \<open>JSON.parse\<close> rejects with a \<open>SyntaxError\<close>, the empty text among them.
\<close>

datatype blob = Json jsval | Malformed string

datatype jsError = TypeError | SyntaxError | QuotaExceededError | RangeError

fun JSON_parse :: "blob \<Rightarrow> jsError + jsval" where
  "JSON_parse (Json v) = Inr v"
| "JSON_parse (Malformed s) = Inl SyntaxError"

definition JSON_stringify :: "jsval \<Rightarrow> blob" where
  "JSON_stringify v = Json v"

text \<open>
  What the browser decides: the number of characters of the text \<open>JSON.stringify\<close>
  produces for a value, and which contents \<open>localStorage\<close> has room for (\<open>setItem\<close> throws
  \<open>QuotaExceededError\<close> otherwise).
\<close>

record host =
  jsonLength :: "jsval \<Rightarrow> nat"
  accepts :: "(string \<rightharpoonup> blob) \<Rightarrow> bool"

fun textLength :: "host \<Rightarrow> blob \<Rightarrow> nat" where
  "textLength h (Json v) = jsonLength h v"
| "textLength h (Malformed s) = length s"

type_synonym localStorage = "string \<rightharpoonup> blob"

definition setItem :: "host \<Rightarrow> string \<Rightarrow> blob \<Rightarrow> localStorage \<Rightarrow> jsError + localStorage" where
  "setItem h k v ls = (if accepts h (ls(k \<mapsto> v)) then Inr (ls(k \<mapsto> v)) else Inl QuotaExceededError)"

definition removeItem :: "string \<Rightarrow> localStorage \<Rightarrow> localStorage" where
  "removeItem k ls = ls(k := None)"

text \<open>A text is falsy when it is empty; \<open>null\<close> (no item) is the value \<open>None\<close>.\<close>

definition emptyText :: "blob \<Rightarrow> bool" where
  "emptyText t = (t = Malformed [])"

text \<open>Truthiness, as \<open>?:\<close> and \<open>||\<close> test it.\<close>

fun truthy :: "jsval \<Rightarrow> bool" where
  "truthy JUndefined = False"
| "truthy JNull = False"
| "truthy (JBool b) = b"
| "truthy (JNum x) = (x \<noteq> 0)"
| "truthy (JStr s) = (s \<noteq> [])"
| "truthy (JDate v) = True"
| "truthy (JArr xs) = True"
| "truthy (JObj kv) = True"

text \<open>
  Reading a property \<open>v.k\<close>, for the property names this program reads (none of them is
  a built-in property of arrays, strings or dates): a \<open>TypeError\<close> on \<open>null\<close> and
  \<open>undefined\<close>, the stored value on an object that has the property, \<open>undefined\<close>
  otherwise.
\<close>

definition propOf :: "(string \<times> jsval) list \<Rightarrow> string \<Rightarrow> jsval" where
  "propOf kv k = (case map_of kv k of None \<Rightarrow> JUndefined | Some v \<Rightarrow> v)"

fun getProp :: "jsval \<Rightarrow> string \<Rightarrow> jsError + jsval" where
  "getProp JUndefined k = Inl TypeError"
| "getProp JNull k = Inl TypeError"
| "getProp (JObj kv) k = Inr (propOf kv k)"
| "getProp v k = Inr JUndefined"

text \<open>Assigning a property in an object literal: an existing key keeps its place.\<close>

fun setProp :: "string \<Rightarrow> jsval \<Rightarrow> (string \<times> jsval) list \<Rightarrow> (string \<times> jsval) list" where
  "setProp k v [] = [(k, v)]"
| "setProp k v ((k', v') # kv) = (if k' = k then (k, v) # kv else (k', v') # setProp k v kv)"

text \<open>
  The own enumerable properties that \<open>{...v}\<close> copies: those of an object, the indexed
  elements of an array or of a string, none for any other value.
\<close>

fun digitsOf :: "nat \<Rightarrow> nat \<Rightarrow> string" where
  "digitsOf 0 n = []"
| "digitsOf (Suc fuel) n =
     (if n < 10 then [char_of (48 + n)] else digitsOf fuel (n div 10) @ [char_of (48 + n mod 10)])"

definition indexKey :: "nat \<Rightarrow> string" where
  "indexKey n = digitsOf (Suc n) n"

fun spread :: "jsval \<Rightarrow> (string \<times> jsval) list" where
  "spread (JObj kv) = kv"
| "spread (JArr xs) = zip (map indexKey [0 ..< length xs]) xs"
| "spread (JStr s) = zip (map indexKey [0 ..< length s]) (map (\<lambda>c. JStr [c]) s)"
| "spread v = []"

text \<open>Sequencing of steps that may throw.\<close>

definition bindE :: "jsError + 'a \<Rightarrow> ('a \<Rightarrow> jsError + 'b) \<Rightarrow> jsError + 'b" where
  "bindE r f = (case r of Inl e \<Rightarrow> Inl e | Inr x \<Rightarrow> f x)"

fun mapE :: "('a \<Rightarrow> jsError + 'b) \<Rightarrow> 'a list \<Rightarrow> jsError + 'b list" where
  "mapE f [] = Inr []"
| "mapE f (x # xs) = bindE (f x) (\<lambda>y. bindE (mapE f xs) (\<lambda>ys. Inr (y # ys)))"

text \<open>
  \<open>v.map(f)\<close>: only an array has the method; on \<open>null\<close> and \<open>undefined\<close> the property
  read throws, on any other value the call of a missing method throws. \<open>v?.map(f)\<close> is
  \<open>undefined\<close> on \<open>null\<close> and \<open>undefined\<close>.
\<close>

fun callMap :: "(jsval \<Rightarrow> jsError + jsval) \<Rightarrow> jsval \<Rightarrow> jsError + jsval" where
  "callMap f (JArr xs) = bindE (mapE f xs) (\<lambda>ys. Inr (JArr ys))"
| "callMap f v = Inl TypeError"

fun callMapOpt :: "(jsval \<Rightarrow> jsError + jsval) \<Rightarrow> jsval \<Rightarrow> jsError + jsval" where
  "callMapOpt f JUndefined = Inr JUndefined"
| "callMapOpt f JNull = Inr JUndefined"
| "callMapOpt f v = callMap f v"

definition orElse :: "jsval \<Rightarrow> jsval \<Rightarrow> jsval" where
  "orElse v d = (if truthy v then v else d)"

section \<open>storage.js: the storage manager\<close>

record StorageManager =
  storageKey :: string
  maxStorageSize :: nat
  compression :: bool

definition StorageManager_new :: StorageManager where
  "StorageManager_new =
     \<lparr>storageKey = ''daedongMap_data'', maxStorageSize = 5 * 1024 * 1024, compression = True\<rparr>"

text \<open>\<open>Math.round(x)\<close>: the nearest integer, halves upwards.\<close>

definition Math_round :: "real \<Rightarrow> real" where
  "Math_round x = of_int \<lfloor>x + 1 / 2\<rfloor>"

text \<open>
  The object literal that both branches of \<open>_compressPoints\<close> map over the points.
\<close>

definition compressPoint :: "point \<Rightarrow> jsval" where
  "compressPoint p =
     JObj [(''lat'', JNum (Math_round (lat p * 1000000) / 1000000)),
           (''lng'', JNum (Math_round (lng p * 1000000) / 1000000)),
           (''timestamp'', JNum (of_int (timestamp p))),
           (''accuracy'', JNum (Math_round (accuracy p)))]"

text \<open>\<open>StorageManager._compressPoints(points)\<close>; \<open>None\<close> when the simplifier does not return.\<close>

definition compressPoints :: "StorageManager \<Rightarrow> point list \<Rightarrow> jsval list option" where
  "compressPoints sm pts =
     (if \<not> compression sm \<or> length pts < 10 then Some (map compressPoint pts)
      else Option.bind (simplifyPath pts (1 / 100000))
             (\<lambda>simplified. Some (map compressPoint simplified)))"

text \<open>
  \<open>StorageManager._serializeData(data)\<close>; \<open>now\<close> is \<open>Date.now()\<close>. For a route without
  \<open>endTime\<close> the property \<open>endTime\<close> of the literal is \<open>undefined\<close>, and
  \<open>JSON.stringify\<close> leaves such a property out: it is left out here.
\<close>

definition serializeRoute :: "StorageManager \<Rightarrow> route \<Rightarrow> jsval option" where
  "serializeRoute sm r =
     Option.bind (compressPoints sm (points r)) (\<lambda>ps.
       Some (JObj ([(''id'', JStr (route_id r)),
                    (''points'', JArr ps),
                    (''startTime'', JNum (of_int (startTime r)))] @
                   (case endTime r of None \<Rightarrow> [] | Some e \<Rightarrow> [(''endTime'', JNum (of_int e))]) @
                   [(''distance'', JNum (Math_round (distance r)))])))"

definition serializeArea :: "stayArea \<Rightarrow> jsval" where
  "serializeArea area =
     JObj [(''lat'', JNum (Math_round (lat area * 1000000) / 1000000)),
           (''lng'', JNum (Math_round (lng area * 1000000) / 1000000)),
           (''startTime'', JNum (of_int (areaStartTime area))),
           (''endTime'', JNum (of_int (areaEndTime area))),
           (''duration'', JNum (of_int (duration area)))]"

fun mapO :: "('a \<Rightarrow> 'b option) \<Rightarrow> 'a list \<Rightarrow> 'b list option" where
  "mapO f [] = Some []"
| "mapO f (x # xs) = Option.bind (f x) (\<lambda>y. Option.bind (mapO f xs) (\<lambda>ys. Some (y # ys)))"

definition serializeData :: "StorageManager \<Rightarrow> date \<Rightarrow> snapshot \<Rightarrow> jsval option" where
  "serializeData sm now data =
     Option.bind (mapO (serializeRoute sm) (routes data)) (\<lambda>rs.
       Some (JObj [(''routes'', JArr rs),
                   (''stayAreas'', JArr (map serializeArea (stayAreas data))),
                   (''totalDistance'', JNum (Math_round (totalDistance data))),
                   (''lastSaved'', JNum (of_int now)),
                   (''version'', JStr ''2.1'')]))"

text \<open>\<open>StorageManager._cleanupOldData(data)\<close>; \<open>now\<close> is \<open>Date.now()\<close>.\<close>

definition cleanupOldData :: "date \<Rightarrow> snapshot \<Rightarrow> snapshot" where
  "cleanupOldData now data =
     (let thirtyDaysAgo = now - (30 * 24 * 60 * 60 * 1000)
      in data\<lparr>routes := filter (\<lambda>r. startTime r > thirtyDaysAgo) (routes data)\<rparr>)"

text \<open>What the storage manager writes to the console and shows to the user.\<close>

datatype storageLog =
    Warn_overQuota
  | Log_cleanedUp
  | Status_saved
  | Error_saveFailed jsError
  | Feedback_storageFull
  | Warn_version
  | Error_restoreFailed jsError
  | Error_backupFailed jsError

text \<open>
  \<open>StorageManager._saveToStorage(data)\<close>, the function the debounced \<open>saveToStorage\<close>
  runs. \<open>depth\<close> is the number of nested calls of itself the call stack still has room
  for: the call that exceeds it throws a \<open>RangeError\<close> inside the \<open>try\<close> of its caller,
  whose \<open>catch\<close> returns \<open>false\<close>. \<open>Date.now()\<close> is \<open>now\<close> throughout. The result is the
  returned flag, the store and the log; \<open>None\<close> when serialization does not return.
\<close>

fun saveToStorage ::
  "host \<Rightarrow> StorageManager \<Rightarrow> date \<Rightarrow> nat \<Rightarrow> snapshot \<Rightarrow> localStorage \<Rightarrow>
   (bool \<times> localStorage \<times> storageLog list) option" where
  "saveToStorage h sm now depth data ls =
     Option.bind (serializeData sm now data) (\<lambda>serializedData.
       let dataStr = JSON_stringify serializedData
       in if textLength h dataStr > maxStorageSize sm then
            (case depth of
               0 \<Rightarrow> Some (False, ls, [Warn_overQuota, Log_cleanedUp, Error_saveFailed RangeError])
             | Suc d \<Rightarrow>
                 map_option (\<lambda>(ok, ls', logs). (ok, ls', Warn_overQuota # Log_cleanedUp # logs))
                   (saveToStorage h sm now d (cleanupOldData now data) ls))
          else
            (case setItem h (storageKey sm) dataStr ls of
               Inr ls' \<Rightarrow> Some (True, ls', [Status_saved])
             | Inl e \<Rightarrow>
                 Some (False, ls,
                       Error_saveFailed e #
                       (if e = QuotaExceededError then [Feedback_storageFull] else []))))"

text \<open>
  \<open>StorageManager._backupCorruptedData()\<close>: inside its own \<open>try\<close>, the text is first
  written under the key with the suffix \<open>_backup\<close> and only then removed from the primary
  key; when the write throws, the \<open>catch\<close> logs and nothing has changed.
\<close>

definition backupCorruptedData ::
  "host \<Rightarrow> StorageManager \<Rightarrow> localStorage \<Rightarrow> localStorage \<times> storageLog list" where
  "backupCorruptedData h sm ls =
     (case ls (storageKey sm) of
        None \<Rightarrow> (ls, [])
      | Some corrupted \<Rightarrow>
          if emptyText corrupted then (ls, [])
          else
            (case setItem h (storageKey sm @ ''_backup'') corrupted ls of
               Inr ls' \<Rightarrow> (removeItem (storageKey sm) ls', [])
             | Inl e \<Rightarrow> (ls, [Error_backupFailed e])))"

text \<open>The three arrow functions of \<open>loadFromStorage\<close>, for a point, a route and an area.\<close>

definition restorePoint :: "jsval \<Rightarrow> jsError + jsval" where
  "restorePoint p =
     bindE (getProp p ''lat'') (\<lambda>la.
     bindE (getProp p ''lng'') (\<lambda>lo.
     bindE (getProp p ''timestamp'') (\<lambda>ts.
     bindE (getProp p ''accuracy'') (\<lambda>acc.
       Inr (JObj [(''lat'', la), (''lng'', lo), (''timestamp'', JDate ts), (''accuracy'', acc)])))))"

definition restoreRoute :: "jsval \<Rightarrow> jsError + jsval" where
  "restoreRoute r =
     bindE (getProp r ''points'') (\<lambda>ps.
     bindE (callMap restorePoint ps) (\<lambda>ps'.
     bindE (getProp r ''startTime'') (\<lambda>st.
     bindE (getProp r ''endTime'') (\<lambda>et.
       Inr (JObj (setProp ''endTime'' (if truthy et then JDate et else JNull)
                 (setProp ''startTime'' (JDate st)
                 (setProp ''points'' ps' (spread r)))))))))"

definition restoreArea :: "jsval \<Rightarrow> jsError + jsval" where
  "restoreArea area =
     bindE (getProp area ''startTime'') (\<lambda>st.
     bindE (getProp area ''endTime'') (\<lambda>et.
       Inr (JObj (setProp ''marker'' JNull
                 (setProp ''endTime'' (JDate et)
                 (setProp ''startTime'' (JDate st) (spread area)))))))"

text \<open>
  The body of the \<open>try\<close> of \<open>loadFromStorage\<close> from \<open>JSON.parse\<close> on: the restored
  object and the log, or the error thrown.
\<close>

definition restoreData :: "blob \<Rightarrow> jsError + jsval \<times> storageLog list" where
  "restoreData savedData =
     bindE (JSON_parse savedData) (\<lambda>data.
     bindE (getProp data ''version'') (\<lambda>version.
     bindE (getProp data ''routes'') (\<lambda>rs.
     bindE (callMapOpt restoreRoute rs) (\<lambda>rs'.
     bindE (getProp data ''stayAreas'') (\<lambda>as.
     bindE (callMapOpt restoreArea as) (\<lambda>as'.
     bindE (getProp data ''totalDistance'') (\<lambda>total.
     bindE (getProp data ''lastSaved'') (\<lambda>saved.
       Inr (JObj [(''routes'', orElse rs' (JArr [])),
                  (''stayAreas'', orElse as' (JArr [])),
                  (''totalDistance'', orElse total (JNum 0)),
                  (''lastSaved'', JDate saved)],
            (if version \<noteq> JStr ''2.1'' then [Warn_version] else []))))))))))"

text \<open>
  \<open>StorageManager.loadFromStorage()\<close>: the returned value (\<open>JNull\<close> for \<open>null\<close>), the
  store and the log. Nothing is thrown to the caller: the one \<open>try\<close> covers the whole body.
\<close>

definition loadFromStorage ::
  "host \<Rightarrow> StorageManager \<Rightarrow> localStorage \<Rightarrow> jsval \<times> localStorage \<times> storageLog list" where
  "loadFromStorage h sm ls =
     (case ls (storageKey sm) of
        None \<Rightarrow> (JNull, ls, [])
      | Some savedData \<Rightarrow>
          if emptyText savedData then (JNull, ls, [])
          else
            (case restoreData savedData of
               Inr (v, logs) \<Rightarrow> (v, ls, logs)
             | Inl e \<Rightarrow>
                 (case backupCorruptedData h sm ls of
                    (ls', logs) \<Rightarrow> (JNull, ls', Error_restoreFailed e # logs))))"

section \<open>app.js: restoring the saved data\<close>

text \<open>
  The application works with the restored objects as routes, points and stay areas. The
  functions below read an object of the expected shape into the record: numbers as they
  are, a date \<open>new Date(t)\<close> by its time value, a missing \<open>drawn\<close> as false. They yield
  \<open>None\<close> for any other value.
\<close>

fun asNum :: "jsval \<Rightarrow> real option" where
  "asNum (JNum x) = Some x"
| "asNum v = None"

fun asStr :: "jsval \<Rightarrow> string option" where
  "asStr (JStr s) = Some s"
| "asStr v = None"

fun asDate :: "jsval \<Rightarrow> date option" where
  "asDate (JDate (JNum x)) = Some \<lfloor>x\<rfloor>"
| "asDate v = None"

fun asDateOrNull :: "jsval \<Rightarrow> date option option" where
  "asDateOrNull JNull = Some None"
| "asDateOrNull v = map_option Some (asDate v)"

fun asProps :: "jsval \<Rightarrow> (string \<times> jsval) list option" where
  "asProps (JObj kv) = Some kv"
| "asProps v = None"

fun asList :: "(jsval \<Rightarrow> 'a option) \<Rightarrow> jsval \<Rightarrow> 'a list option" where
  "asList f (JArr xs) = mapO f xs"
| "asList f v = None"

definition asPoint :: "jsval \<Rightarrow> point option" where
  "asPoint v =
     Option.bind (asProps v) (\<lambda>kv.
     Option.bind (asNum (propOf kv ''lat'')) (\<lambda>la.
     Option.bind (asNum (propOf kv ''lng'')) (\<lambda>lo.
     Option.bind (asDate (propOf kv ''timestamp'')) (\<lambda>ts.
     Option.bind (asNum (propOf kv ''accuracy'')) (\<lambda>acc.
       Some \<lparr>lat = la, lng = lo, timestamp = ts, accuracy = acc\<rparr>)))))"

definition asRoute :: "jsval \<Rightarrow> route option" where
  "asRoute v =
     Option.bind (asProps v) (\<lambda>kv.
     Option.bind (asStr (propOf kv ''id'')) (\<lambda>i.
     Option.bind (asList asPoint (propOf kv ''points'')) (\<lambda>ps.
     Option.bind (asDate (propOf kv ''startTime'')) (\<lambda>st.
     Option.bind (asDateOrNull (propOf kv ''endTime'')) (\<lambda>et.
     Option.bind (asNum (propOf kv ''distance'')) (\<lambda>d.
       Some \<lparr>route_id = i, points = ps, startTime = st, endTime = et, distance = d\<rparr>))))))"

definition asStayArea :: "jsval \<Rightarrow> stayArea option" where
  "asStayArea v =
     Option.bind (asProps v) (\<lambda>kv.
     Option.bind (asNum (propOf kv ''lat'')) (\<lambda>la.
     Option.bind (asNum (propOf kv ''lng'')) (\<lambda>lo.
     Option.bind (asDate (propOf kv ''startTime'')) (\<lambda>st.
     Option.bind (asDate (propOf kv ''endTime'')) (\<lambda>et.
     Option.bind (asNum (propOf kv ''duration'')) (\<lambda>d.
       Some \<lparr>lat = la, lng = lo, areaStartTime = st, areaEndTime = et, duration = \<lfloor>d\<rfloor>,
             drawn = truthy (propOf kv ''drawn'')\<rparr>))))))"

text \<open>
  The object \<open>loadFromStorage\<close> returned, as the application reads it. \<open>savedCurrentRoute\<close>
  is the property \<open>currentRoute\<close> that the later version of app.js looks for.
\<close>

record savedData = snapshot +
  savedCurrentRoute :: "route option"

definition asSavedData :: "jsval \<Rightarrow> savedData option" where
  "asSavedData v =
     Option.bind (asProps v) (\<lambda>kv.
     Option.bind (asList asRoute (propOf kv ''routes'')) (\<lambda>rs.
     Option.bind (asList asStayArea (propOf kv ''stayAreas'')) (\<lambda>as.
     Option.bind (asNum (propOf kv ''totalDistance'')) (\<lambda>total.
     Option.bind (if truthy (propOf kv ''currentRoute'')
                  then map_option Some (asRoute (propOf kv ''currentRoute''))
                  else Some None) (\<lambda>cur.
       Some \<lparr>routes = rs, stayAreas = as, totalDistance = total, savedCurrentRoute = cur\<rparr>)))))"

text \<open>
  \<open>DaedongMapApp.loadSavedData()\<close> in the later version of app.js, from the value
  \<open>loadFromStorage\<close> returned (\<open>None\<close> for \<open>null\<close>). The earlier version is the same
  without the restoring of \<open>currentRoute\<close>.
\<close>

definition app_loadSavedData :: "savedData option \<Rightarrow> app \<Rightarrow> app" where
  "app_loadSavedData saved a =
     (case saved of
        None \<Rightarrow> a
      | Some sd \<Rightarrow>
          let a1 = a\<lparr>routes := routes sd, stayAreas := stayAreas sd,
                     totalDistance := totalDistance sd\<rparr>
          in (case savedCurrentRoute sd of
                None \<Rightarrow> a1
              | Some r \<Rightarrow> if length (points r) > 0 then a1\<lparr>currentRoute := Some r\<rparr> else a1))"

section \<open>The tracker and the application together\<close>

text \<open>
  The application installs its handlers as the tracker's callbacks; a callback runs
  inside the tracker's method, at the place where the effect stands. The handlers neither
  read nor change the tracker. \<open>now\<close> is \<open>new Date()\<close> and \<open>fresh\<close> the generated
  identifier of a new route.
\<close>

fun app_callback :: "date \<Rightarrow> string \<Rightarrow> app \<Rightarrow> effect \<Rightarrow> app" where
  "app_callback now fresh a (Call_onUpdate d) = app_onLocationUpdate d a"
| "app_callback now fresh a Call_onStart = app_onTrackingStart now fresh a"
| "app_callback now fresh a Call_onStop = app_onTrackingStop now a"
| "app_callback now fresh a e = a"

record system =
  sysGps :: GPSTracker
  sysApp :: app

text \<open>
  What can happen to a running application: the user starts, pauses or stops tracking or
  clears all routes, the sensor delivers a position or an error.
\<close>

datatype event =
    Ev_start bool "nat option" date string
  | Ev_pause
  | Ev_stop date
  | Ev_position real real real "real option" date
  | Ev_sensorError nat date
  | Ev_clearAllRoutes

fun step :: "system \<Rightarrow> event \<Rightarrow> system" where
  "step s (Ev_start geolocation watch now fresh) =
     (case gps_startTracking geolocation watch now (sysGps s) of
        (g, effs, _) \<Rightarrow> \<lparr>sysGps = g, sysApp = foldl (app_callback now fresh) (sysApp s) effs\<rparr>)"
| "step s Ev_pause =
     (case gps_pauseTracking (sysGps s) of
        (g, effs, _) \<Rightarrow> \<lparr>sysGps = g, sysApp = foldl (app_callback 0 []) (sysApp s) effs\<rparr>)"
| "step s (Ev_stop now) =
     (case gps_stopTracking (sysGps s) of
        (g, effs, _) \<Rightarrow> \<lparr>sysGps = g, sysApp = foldl (app_callback now []) (sysApp s) effs\<rparr>)"
| "step s (Ev_position lat1 lng1 acc spd now) =
     (case gps_onLocationUpdate lat1 lng1 acc spd now (sysGps s) of
        (g, effs) \<Rightarrow> \<lparr>sysGps = g, sysApp = foldl (app_callback now []) (sysApp s) effs\<rparr>)"
| "step s (Ev_sensorError code now) =
     (case gps_handleError (SensorError code) (sysGps s) of
        (g, effs) \<Rightarrow> \<lparr>sysGps = g, sysApp = foldl (app_callback now []) (sysApp s) effs\<rparr>)"
| "step s Ev_clearAllRoutes = s\<lparr>sysApp := app_clearAllRoutes (sysApp s)\<rparr>"

text \<open>
  \<open>DaedongMapApp.init()\<close>: the callbacks are installed, then the saved data is loaded.
\<close>

definition app_init :: "savedData option \<Rightarrow> system" where
  "app_init saved =
     \<lparr>sysGps = gps_setCallbacks GPSTracker_new, sysApp = app_loadSavedData saved app_new\<rparr>"

text \<open>
  The sum of the great-circle distances between consecutive points, added up from the
  first pair on as the running total is.
\<close>

fun legs :: "point list \<Rightarrow> real list" where
  "legs [] = []"
| "legs [p] = []"
| "legs (p # q # ps) = calculateDistance (lat p) (lng p) (lat q) (lng q) # legs (q # ps)"

definition pathLength :: "point list \<Rightarrow> real" where
  "pathLength ps = foldl (+) 0 (legs ps)"

text \<open>
  What the application keeps true of the live session: outside tracking there is no last
  position; during tracking the distance of the live route is the length of its path and
  the last position is that of its last point.
\<close>

definition liveRouteConsistent :: "bool \<Rightarrow> app \<Rightarrow> bool" where
  "liveRouteConsistent tracking a =
     (if tracking then
        (case currentRoute a of
           None \<Rightarrow> True
         | Some r \<Rightarrow>
             distance r = pathLength (points r) \<and>
             lastPosition a =
               (if points r = [] then None
                else Some \<lparr>lat = lat (last (points r)), lng = lng (last (points r))\<rparr>))
      else lastPosition a = None)"

definition systemConsistent :: "system \<Rightarrow> bool" where
  "systemConsistent s =
     (onUpdate (gpsCallbacks (sysGps s)) \<and> onStart (gpsCallbacks (sysGps s)) \<and>
      onStop (gpsCallbacks (sysGps s)) \<and>
      liveRouteConsistent (isTracking (sysGps s)) (sysApp s))"

text \<open>
  Example data: a saved snapshot that holds a live route of one point, and a session of
  two accepted fixes a quarter of the equator and 300000 seconds apart.
\<close>

definition savedWithLiveRoute :: savedData where
  "savedWithLiveRoute =
     \<lparr>routes = [], stayAreas = [], totalDistance = 123,
      savedCurrentRoute =
        Some \<lparr>route_id = ''old'',
              points = [\<lparr>lat = 5, lng = 5, timestamp = 0, accuracy = 10\<rparr>],
              startTime = 0, endTime = None, distance = 123\<rparr>\<rparr>"

definition sessionEvents :: "event list" where
  "sessionEvents =
     [Ev_start True (Some 1) 1000 ''new'',
      Ev_position 0 0 10 None 2000,
      Ev_position 0 90 10 None 300002000]"

section \<open>The snapshot as the specification expects it back\<close>

text \<open>
  What a point, a route and a stay area look like after a commit and a load, with every
  rounding the serializer applies: coordinates to six decimals, accuracy and distance to
  whole numbers. An end time with time value \<open>0\<close> is falsy and comes back as \<open>null\<close>;
  the flag \<open>drawn\<close> is not stored.
\<close>

definition roundedPoint :: "point \<Rightarrow> point" where
  "roundedPoint p =
     \<lparr>lat = Math_round (lat p * 1000000) / 1000000,
      lng = Math_round (lng p * 1000000) / 1000000,
      timestamp = timestamp p,
      accuracy = Math_round (accuracy p)\<rparr>"

definition storedPoints :: "StorageManager \<Rightarrow> point list \<Rightarrow> point list" where
  "storedPoints sm ps =
     (if \<not> compression sm \<or> length ps < 10 then ps
      else (case simplifyPath ps (1 / 100000) of Some ys \<Rightarrow> ys | None \<Rightarrow> []))"

definition roundedRoute :: "StorageManager \<Rightarrow> route \<Rightarrow> route" where
  "roundedRoute sm r =
     \<lparr>route_id = route_id r,
      points = map roundedPoint (storedPoints sm (points r)),
      startTime = startTime r,
      endTime = (case endTime r of None \<Rightarrow> None | Some e \<Rightarrow> if e = 0 then None else Some e),
      distance = Math_round (distance r)\<rparr>"

definition roundedArea :: "stayArea \<Rightarrow> stayArea" where
  "roundedArea a =
     \<lparr>lat = Math_round (lat a * 1000000) / 1000000,
      lng = Math_round (lng a * 1000000) / 1000000,
      areaStartTime = areaStartTime a,
      areaEndTime = areaEndTime a,
      duration = duration a,
      drawn = False\<rparr>"

text \<open>
  The round trip as the specification states it: only coordinates (six decimals) and
  distances (whole metres) are rounded, every other field comes back as it was.
\<close>

definition spec_roundedPoint :: "point \<Rightarrow> point" where
  "spec_roundedPoint p =
     p\<lparr>lat := Math_round (lat p * 1000000) / 1000000,
       lng := Math_round (lng p * 1000000) / 1000000\<rparr>"

definition spec_roundedRoute :: "route \<Rightarrow> route" where
  "spec_roundedRoute r =
     r\<lparr>points := map spec_roundedPoint (points r), distance := Math_round (distance r)\<rparr>"

definition spec_roundedArea :: "stayArea \<Rightarrow> stayArea" where
  "spec_roundedArea a =
     a\<lparr>lat := Math_round (lat a * 1000000) / 1000000,
       lng := Math_round (lng a * 1000000) / 1000000\<rparr>"

definition spec_roundTrip :: "snapshot \<Rightarrow> savedData" where
  "spec_roundTrip data =
     \<lparr>routes = map spec_roundedRoute (routes data),
      stayAreas = map spec_roundedArea (stayAreas data),
      totalDistance = Math_round (totalDistance data),
      savedCurrentRoute = None\<rparr>"

text \<open>
  Example data: a browser that reports 120 characters for every text and stores anything;
  one that reports 6000000 characters; one that has no room left.
\<close>

definition roomyHost :: host where
  "roomyHost = \<lparr>jsonLength = (\<lambda>v. 120), accepts = (\<lambda>items. True)\<rparr>"

definition verboseHost :: host where
  "verboseHost = \<lparr>jsonLength = (\<lambda>v. 6000000), accepts = (\<lambda>items. True)\<rparr>"

definition fullHost :: host where
  "fullHost = \<lparr>jsonLength = (\<lambda>v. 120), accepts = (\<lambda>items. False)\<rparr>"

definition walkSnapshot :: snapshot where
  "walkSnapshot =
     \<lparr>routes = [\<lparr>route_id = ''r1'',
                  points = [\<lparr>lat = 1 / 2, lng = 1 / 4, timestamp = 1000, accuracy = 52 / 5\<rparr>],
                  startTime = 1000, endTime = Some 2000, distance = 7 / 2\<rparr>],
      stayAreas = [\<lparr>lat = 1 / 2, lng = 1 / 4, areaStartTime = 1000, areaEndTime = 3601000,
                     duration = 3600000, drawn = True\<rparr>],
      totalDistance = 7 / 2\<rparr>"

section \<open>The stored and the restored objects, written out\<close>

text \<open>
  The values that the serializer and \<open>loadFromStorage\<close> produce for a snapshot, as
  explicit objects. The lemmas \<open>serializeData_eq\<close> and \<open>restoreData_serialized\<close> prove
  that these are the values the code computes.
\<close>

definition routeJson :: "StorageManager \<Rightarrow> route \<Rightarrow> jsval" where
  "routeJson sm r =
     JObj ([(''id'', JStr (route_id r)),
            (''points'', JArr (map compressPoint (storedPoints sm (points r)))),
            (''startTime'', JNum (of_int (startTime r)))] @
           (case endTime r of None \<Rightarrow> [] | Some e \<Rightarrow> [(''endTime'', JNum (of_int e))]) @
           [(''distance'', JNum (Math_round (distance r)))])"

definition serializedJs :: "StorageManager \<Rightarrow> date \<Rightarrow> snapshot \<Rightarrow> jsval" where
  "serializedJs sm now data =
     JObj [(''routes'', JArr (map (routeJson sm) (routes data))),
           (''stayAreas'', JArr (map serializeArea (stayAreas data))),
           (''totalDistance'', JNum (Math_round (totalDistance data))),
           (''lastSaved'', JNum (of_int now)),
           (''version'', JStr ''2.1'')]"

definition restoredPointJs :: "point \<Rightarrow> jsval" where
  "restoredPointJs p =
     JObj [(''lat'', JNum (Math_round (lat p * 1000000) / 1000000)),
           (''lng'', JNum (Math_round (lng p * 1000000) / 1000000)),
           (''timestamp'', JDate (JNum (of_int (timestamp p)))),
           (''accuracy'', JNum (Math_round (accuracy p)))]"

definition restoredRouteJs :: "StorageManager \<Rightarrow> route \<Rightarrow> jsval" where
  "restoredRouteJs sm r =
     JObj ([(''id'', JStr (route_id r)),
            (''points'', JArr (map restoredPointJs (storedPoints sm (points r)))),
            (''startTime'', JDate (JNum (of_int (startTime r))))] @
           (case endTime r of
              None \<Rightarrow> []
            | Some e \<Rightarrow> [(''endTime'', if e = 0 then JNull else JDate (JNum (of_int e)))]) @
           [(''distance'', JNum (Math_round (distance r)))] @
           (case endTime r of None \<Rightarrow> [(''endTime'', JNull)] | Some e \<Rightarrow> []))"

definition restoredAreaJs :: "stayArea \<Rightarrow> jsval" where
  "restoredAreaJs a =
     JObj [(''lat'', JNum (Math_round (lat a * 1000000) / 1000000)),
           (''lng'', JNum (Math_round (lng a * 1000000) / 1000000)),
           (''startTime'', JDate (JNum (of_int (areaStartTime a)))),
           (''endTime'', JDate (JNum (of_int (areaEndTime a)))),
           (''duration'', JNum (of_int (duration a))),
           (''marker'', JNull)]"

definition restoredJs :: "StorageManager \<Rightarrow> date \<Rightarrow> snapshot \<Rightarrow> jsval" where
  "restoredJs sm now data =
     JObj [(''routes'', JArr (map (restoredRouteJs sm) (routes data))),
           (''stayAreas'', JArr (map restoredAreaJs (stayAreas data))),
           (''totalDistance'', JNum (Math_round (totalDistance data))),
           (''lastSaved'', JDate (JNum (of_int now)))]"

text \<open>
  A point passed through as the specification states it: only the coordinates rounded.
\<close>

definition spec_passThrough :: "point \<Rightarrow> jsval" where
  "spec_passThrough p =
     JObj [(''lat'', JNum (Math_round (lat p * 1000000) / 1000000)),
           (''lng'', JNum (Math_round (lng p * 1000000) / 1000000)),
           (''timestamp'', JNum (of_int (timestamp p))),
           (''accuracy'', JNum (accuracy p))]"

text \<open>Example data: a store that holds a text which is not JSON, and one with a null route.\<close>

definition brokenStore :: localStorage where
  "brokenStore = Map.empty(''daedongMap_data'' \<mapsto> Malformed ''{routes:['')"

definition nullRouteStore :: localStorage where
  "nullRouteStore =
     Map.empty(''daedongMap_data'' \<mapsto>
       Json (JObj [(''version'', JStr ''2.1''), (''routes'', JArr [JNull]),
                   (''stayAreas'', JArr []), (''totalDistance'', JNum 0)]))"

section \<open>Path simplification: termination, endpoints, subsequence\<close>

text \<open>
  The loop only moves \<open>maxIndex\<close> away from \<open>0\<close> when it has seen a strictly positive
  distance, and then the index is an interior one.
\<close>

lemma farthest_inv_aux:
  "0 \<le> fst acc \<Longrightarrow> (0 < fst acc \<longrightarrow> 1 \<le> snd acc \<and> snd acc < n) \<Longrightarrow> \<forall>i \<in> set is. 1 \<le> i \<and> i < n \<Longrightarrow>
   0 \<le> fst (foldl (farthestStep pts) acc is) \<and>
   (0 < fst (foldl (farthestStep pts) acc is) \<longrightarrow>
      1 \<le> snd (foldl (farthestStep pts) acc is) \<and> snd (foldl (farthestStep pts) acc is) < n)"
proof (induction "is" arbitrary: acc)
  case Nil
  then show ?case by simp
next
  case (Cons i "is")
  have "0 \<le> fst (farthestStep pts acc i)"
    using Cons.prems(1) by (auto simp: farthestStep_def Let_def)
  moreover have "0 < fst (farthestStep pts acc i) \<longrightarrow> 1 \<le> snd (farthestStep pts acc i) \<and> snd (farthestStep pts acc i) < n"
    using Cons.prems by (auto simp: farthestStep_def Let_def)
  ultimately show ?case using Cons.IH[of "farthestStep pts acc i"] Cons.prems(3) by simp
qed

lemma farthest_index:
  "0 < fst (farthest pts) \<Longrightarrow> 1 \<le> snd (farthest pts) \<and> snd (farthest pts) < length pts - 1"
  using farthest_inv_aux[of "(0,0)" "length pts - 1" "[1 ..< length pts - 1]" pts]
  by (simp add: farthest_def)

lemma subseq_ends:
  assumes "2 \<le> length ps"
  shows "subseq [ps ! 0, ps ! (length ps - 1)] ps"
proof -
  from assms have ne: "ps \<noteq> []" by auto
  have split: "ps = butlast ps @ [last ps]" using ne by simp
  have "butlast ps \<noteq> []" using assms by (cases ps) (auto split: if_splits)
  then have "ps ! 0 \<in> set (butlast ps)"
    by (metis hd_conv_nth hd_in_set ne nth_butlast length_greater_0_conv)
  then have "subseq [ps ! 0] (butlast ps)" by (simp add: subseq_singleton_left)
  then have "subseq ([ps ! 0] @ [last ps]) (butlast ps @ [last ps])"
    by (rule list_emb_append_mono) simp
  then show ?thesis using split ne by (simp add: last_conv_nth)
qed

lemma simplifyPath_props:
  assumes tol: "0 \<le> tol"
  shows "\<exists>ys. simplifyPath ps tol = Some ys \<and> subseq ys ps \<and> length ys \<le> length ps \<and>
           (ps \<noteq> [] \<longrightarrow> ys \<noteq> [] \<and> hd ys = hd ps \<and> last ys = last ps)"
proof (induction "length ps" arbitrary: ps rule: less_induct)
  case less
  show ?case
  proof (cases "length ps \<le> 2")
    case True
    then have "simplifyPath ps tol = Some ps" by (subst simplifyPath.simps) simp
    then show ?thesis by simp
  next
    case long: False
    define md where "md = fst (farthest ps)"
    define mi where "mi = snd (farthest ps)"
    have ne: "ps \<noteq> []" using long by auto
    show ?thesis
    proof (cases "md > tol")
      case False
      then have eq: "simplifyPath ps tol = Some [ps ! 0, ps ! (length ps - 1)]"
        using long by (subst simplifyPath.simps) (simp add: md_def Let_def)
      have "subseq [ps ! 0, ps ! (length ps - 1)] ps" using long by (intro subseq_ends) simp
      moreover have "hd ps = ps ! 0" using ne by (simp add: hd_conv_nth)
      moreover have "last ps = ps ! (length ps - 1)" using ne by (simp add: last_conv_nth)
      ultimately show ?thesis using eq long by simp
    next
      case True
      then have "0 < md" using tol by simp
      then have mi: "1 \<le> mi" "mi < length ps - 1"
        using farthest_index[of ps] by (simp_all add: md_def mi_def)
      let ?l = "take (mi + 1) ps" and ?r = "drop mi ps"
      have ll: "length ?l = mi + 1" using mi by simp
      have lr: "length ?r = length ps - mi" by simp
      have "length ?l < length ps" using mi by simp
      from less[OF this] have "\<exists>ys. simplifyPath ?l tol = Some ys \<and> subseq ys ?l \<and>
          length ys \<le> length ?l \<and> (?l \<noteq> [] \<longrightarrow> ys \<noteq> [] \<and> hd ys = hd ?l \<and> last ys = last ?l)" .
      moreover have lne: "?l \<noteq> []" using ne by simp
      ultimately obtain left where left:
        "simplifyPath ?l tol = Some left" "subseq left ?l" "length left \<le> mi + 1"
        "left \<noteq> []" "hd left = hd ?l" "last left = last ?l"
        unfolding ll by blast
      have "length ?r < length ps" using mi by simp
      from less[OF this] have "\<exists>ys. simplifyPath ?r tol = Some ys \<and> subseq ys ?r \<and>
          length ys \<le> length ?r \<and> (?r \<noteq> [] \<longrightarrow> ys \<noteq> [] \<and> hd ys = hd ?r \<and> last ys = last ?r)" .
      moreover have rne: "?r \<noteq> []" using mi by simp
      ultimately obtain right where right:
        "simplifyPath ?r tol = Some right" "subseq right ?r" "length right \<le> length ps - mi"
        "right \<noteq> []" "hd right = hd ?r" "last right = last ?r"
        unfolding lr by blast
      have eq: "simplifyPath ps tol = Some (butlast left @ right)"
        using long True left(1) right(1)
        by (subst simplifyPath.simps) (simp add: md_def mi_def Let_def)
      have takeSuc: "?l = take mi ps @ [ps ! mi]" using mi by (simp add: take_Suc_conv_app_nth)
      have lastl: "last ?l = ps ! mi" by (subst takeSuc) simp
      have hdl: "hd ?l = hd ps" by simp
      have hdr: "hd ?r = ps ! mi" using mi by (simp add: hd_drop_conv_nth)
      have lastr: "last ?r = last ps" using mi by simp
      have "left = butlast left @ [ps ! mi]" using left(4,6) lastl
        by (metis append_butlast_last_id)
      then have "subseq (butlast left @ [ps ! mi]) (take mi ps @ [ps ! mi])"
        using left(2) takeSuc by simp
      then have sl: "subseq (butlast left) (take mi ps)" by simp
      have "subseq (butlast left @ right) (take mi ps @ drop mi ps)"
        using sl right(2) by (rule list_emb_append_mono)
      then have sub: "subseq (butlast left @ right) ps" by simp
      have len: "length (butlast left @ right) \<le> length ps"
        using left(3) right(3) mi by simp
      have hd: "hd (butlast left @ right) = hd ps"
      proof (cases "butlast left = []")
        case True
        then have "left = [last left]" using left(4) by (metis append_butlast_last_id append_Nil)
        then have "hd left = last left" by (metis list.sel(1))
        then show ?thesis using True left(5,6) right(5) hdl hdr lastl by simp
      next
        case False
        then have "hd (butlast left @ right) = hd (butlast left)" by simp
        also have "\<dots> = hd left" using False by (metis append_butlast_last_id butlast.simps(1) hd_append2)
        finally show ?thesis using left(5) hdl by simp
      qed
      have lst: "last (butlast left @ right) = last ps"
        using right(4,6) lastr by simp
      show ?thesis using eq sub len hd lst right(4) by simp
    qed
  qed
qed

text \<open>
  C10. For a tolerance that is not negative (the only caller passes \<open>0.00001\<close>) the
  simplifier returns, and what it returns is an ordered subsequence of its input: the
  pts at a set of input positions, in input order, each position used at most once, so
  the split point shared by the two recursive calls occurs once in the concatenation.
\<close>

theorem simplifyPath_subsequence:
  assumes "0 \<le> tolerance"
  shows "\<exists>ys. simplifyPath pts tolerance = Some ys \<and> subseq ys pts \<and>
           (\<exists>N. ys = nths pts N) \<and> (distinct pts \<longrightarrow> distinct ys)"
proof -
  from simplifyPath_props[OF assms, of pts] obtain ys where
    ys: "simplifyPath pts tolerance = Some ys" "subseq ys pts" by blast
  from ys(2) obtain N where N: "ys = nths pts N" by (auto simp: subseq_conv_nths)
  then have "distinct pts \<longrightarrow> distinct ys" by simp
  with N show ?thesis using ys by blast
qed

text \<open>C10, witness: the tolerance of the caller and a path of three points.\<close>

theorem simplifyPath_subsequence_witness:
  "(0::real) \<le> 1 / 100000 \<and>
   (\<exists>ys. simplifyPath meridianPath (1 / 100000) = Some ys \<and> subseq ys meridianPath \<and>
      (\<exists>N. ys = nths meridianPath N) \<and> (distinct meridianPath \<longrightarrow> distinct ys))"
proof -
  have h: "(0::real) \<le> 1 / 100000" by simp
  show ?thesis using h simplifyPath_subsequence[OF h, of meridianPath] by simp
qed

section \<open>Great-circle distance: sign and two values\<close>

lemma haversine_term_bounds:
  fixes p q y :: real
  defines "a \<equiv> sin ((q - p) / 2) * sin ((q - p) / 2) + cos p * cos q * sin (y / 2) * sin (y / 2)"
  shows "0 \<le> a \<and> a \<le> 1"
proof -
  define s where "s = sin (y / 2) * sin (y / 2)"
  define C where "C = cos (q - p)"
  define D where "D = cos (p + q)"
  have s: "0 \<le> s" "s \<le> 1"
    using sin_le_one[of "y/2"] sin_ge_minus_one[of "y/2"]
    by (simp_all add: s_def abs_square_le_1 power2_eq_square[symmetric])
  have C: "- 1 \<le> C" "C \<le> 1" by (simp_all add: C_def)
  have D: "- 1 \<le> D" "D \<le> 1" by (simp_all add: D_def)
  have e: "cos (2 * ((q - p) / 2)) = 1 - 2 * (sin ((q - p) / 2))\<^sup>2"
    by (rule cos_double_sin)
  have "2 * ((q - p) / 2) = q - p" by simp
  with e have "cos (q - p) = 1 - 2 * (sin ((q - p) / 2))\<^sup>2" by (simp only:)
  then have h1: "sin ((q - p) / 2) * sin ((q - p) / 2) = (1 - C) / 2"
    by (simp add: C_def power2_eq_square)
  have h2: "cos p * cos q = (C + D) / 2"
    by (simp add: C_def D_def cos_diff cos_add)
  have "a = sin ((q - p) / 2) * sin ((q - p) / 2) + (cos p * cos q) * s"
    unfolding a_def s_def by (simp only: mult.assoc)
  then have a: "a = (1 - C) / 2 + (C + D) / 2 * s"
    by (simp only: h1 h2)
  have m1: "(1 - s) * C \<le> (1 - s) * 1" using s C by (intro mult_left_mono) simp_all
  have m2: "(1 - s) * (- 1) \<le> (1 - s) * C" using s C by (intro mult_left_mono) simp_all
  have m3: "s * D \<le> s * 1" using s D by (intro mult_left_mono) simp_all
  have m4: "s * (- 1) \<le> s * D" using s D by (intro mult_left_mono) simp_all
  have "2 * a = 1 - (1 - s) * C + s * D" unfolding a by (simp add: field_simps)
  then show ?thesis using m1 m2 m3 m4 by (simp add: algebra_simps)
qed

lemma Math_atan2_nonneg: "0 \<le> y \<Longrightarrow> 0 \<le> x \<Longrightarrow> 0 \<le> Math_atan2 y x"
  by (auto simp: Math_atan2_def zero_le_arctan_iff)

lemma calculateDistance_nonneg: "0 \<le> calculateDistance lat1 lng1 lat2 lng2"
proof -
  define p where "p = lat1 * pi / 180"
  define q where "q = lat2 * pi / 180"
  define y where "y = (lng2 - lng1) * pi / 180"
  define a where "a = sin ((q - p) / 2) * sin ((q - p) / 2) + cos p * cos q * sin (y / 2) * sin (y / 2)"
  have d: "(lat2 - lat1) * pi / 180 = q - p" by (simp add: p_def q_def algebra_simps diff_divide_distrib)
  have ab: "0 \<le> a \<and> a \<le> 1" unfolding a_def by (rule haversine_term_bounds)
  have "calculateDistance lat1 lng1 lat2 lng2 = 6371000 * (2 * Math_atan2 (sqrt a) (sqrt (1 - a)))"
    unfolding calculateDistance_def Let_def d a_def p_def[symmetric] q_def[symmetric] y_def[symmetric] ..
  moreover have "0 \<le> Math_atan2 (sqrt a) (sqrt (1 - a))"
    using ab by (intro Math_atan2_nonneg) simp_all
  ultimately show ?thesis by simp
qed

lemma calculateDistance_quarter: "calculateDistance 0 0 0 90 = 6371000 * pi / 2"
proof -
  have s: "sin (pi / 4) * sin (pi / 4) = 1 / 2"
    by (simp add: sin_45)
  have a: "sin ((0 - 0) * pi / 180 / 2) * sin ((0 - 0) * pi / 180 / 2) +
      cos (0 * pi / 180) * cos (0 * pi / 180) * sin ((90 - 0) * pi / 180 / 2) *
      sin ((90 - 0) * pi / 180 / 2) = (1 / 2 :: real)"
    using s by simp
  have "sqrt (1 / 2) > 0" by simp
  then have at: "Math_atan2 (sqrt (1/2)) (sqrt (1/2)) = pi / 4"
    unfolding Math_atan2_def by (simp add: arctan_one)
  have "calculateDistance 0 0 0 90 = 6371000 * (2 * Math_atan2 (sqrt (1/2)) (sqrt (1 - 1/2)))"
    unfolding calculateDistance_def Let_def by (simp only: a)
  then show ?thesis using at by simp
qed

lemma calculateDistance_same [simp]: "calculateDistance a b a b = 0"
  by (simp add: calculateDistance_def Math_atan2_def)

lemma calculateDistance_sym: "calculateDistance a b c d = calculateDistance c d a b"
proof -
  have s: "sin (- x) * sin (- x) = sin x * sin x" for x :: real by simp
  have e1: "(a - c) * pi / 180 / 2 = - ((c - a) * pi / 180 / 2)" by (simp add: left_diff_distrib diff_divide_distrib)
  have e2: "(b - d) * pi / 180 / 2 = - ((d - b) * pi / 180 / 2)" by (simp add: left_diff_distrib diff_divide_distrib)
  have t1: "sin ((a - c) * pi / 180 / 2) * sin ((a - c) * pi / 180 / 2) =
            sin ((c - a) * pi / 180 / 2) * sin ((c - a) * pi / 180 / 2)"
    unfolding e1 by (rule s)
  have t2: "sin ((b - d) * pi / 180 / 2) * sin ((b - d) * pi / 180 / 2) =
            sin ((d - b) * pi / 180 / 2) * sin ((d - b) * pi / 180 / 2)"
    unfolding e2 by (rule s)
  have "cos (c * pi / 180) * cos (a * pi / 180) * sin ((b - d) * pi / 180 / 2) * sin ((b - d) * pi / 180 / 2)
      = cos (a * pi / 180) * cos (c * pi / 180) * sin ((d - b) * pi / 180 / 2) * sin ((d - b) * pi / 180 / 2)"
    using t2 by (simp add: mult.assoc mult.left_commute)
  then show ?thesis
    unfolding calculateDistance_def Let_def by (simp only: t1)
qed

section \<open>The location filter\<close>

lemma startedTracker_eq:
  "startedTracker = \<lparr>watchId = Some 1, isTracking = True, isPaused = False, lastValidLocation = None,
      locationUpdateCount = 0, gpsTrackingStartTime = Some 0,
      gpsCallbacks = \<lparr>onUpdate = True, onError = True, onStart = True, onStop = True,
                      onPause = True\<rparr>\<rparr>"
  by (simp add: startedTracker_def gps_startTracking_def gps_setCallbacks_def GPSTracker_new_def)

lemma trackerAfterFirstFix_eq:
  "trackerAfterFirstFix = \<lparr>watchId = Some 1, isTracking = True, isPaused = False,
      lastValidLocation = Some \<lparr>lat = 0, lng = 0, timestamp = 10000, accuracy = 10, speed = 0,
                                 dataIsTracking = True\<rparr>,
      locationUpdateCount = 1, gpsTrackingStartTime = Some 0,
      gpsCallbacks = \<lparr>onUpdate = True, onError = True, onStart = True, onStop = True,
                      onPause = True\<rparr>\<rparr>"
  by (simp add: trackerAfterFirstFix_def startedTracker_eq gps_onLocationUpdate_def Let_def)

lemma locationUpdateCount_step:
  "locationUpdateCount (fst (gps_onLocationUpdate la lo acc spd now g)) = locationUpdateCount g + 1"
  by (simp add: gps_onLocationUpdate_def Let_def split: option.splits)

lemma locationUpdateCount_deliver:
  "locationUpdateCount (fst (gps_deliver ds g)) = locationUpdateCount g + length ds"
proof (induction ds arbitrary: g)
  case Nil then show ?case by simp
next
  case (Cons d ds)
  obtain la lo acc spd now where d: "d = (la, lo, acc, spd, now)" by (cases d) 
  show ?case
    using Cons.IH[of "fst (gps_onLocationUpdate la lo acc spd now g)"]
      locationUpdateCount_step[of la lo acc spd now g]
    by (auto simp: d split: prod.splits)
qed

lemma gpsCallbacks_step:
  "gpsCallbacks (fst (gps_onLocationUpdate la lo acc spd now g)) = gpsCallbacks g"
  by (simp add: gps_onLocationUpdate_def Let_def split: option.splits)

lemma gpsCallbacks_deliver: "gpsCallbacks (fst (gps_deliver ds g)) = gpsCallbacks g"
proof (induction ds arbitrary: g)
  case Nil then show ?case by simp
next
  case (Cons d ds)
  obtain la lo acc spd now where d: "d = (la, lo, acc, spd, now)" by (cases d) 
  show ?case
    using Cons.IH[of "fst (gps_onLocationUpdate la lo acc spd now g)"]
      gpsCallbacks_step[of la lo acc spd now g]
    by (auto simp: d split: prod.splits)
qed

lemma lowAccuracy_iff:
  "list_ex isAccuracyRejection (snd (gps_onLocationUpdate la lo acc spd now g)) \<longleftrightarrow>
     acc > (if locationUpdateCount g + 1 < 5 then 200 else 100)"
  by (simp add: gps_onLocationUpdate_def Let_def split: option.splits)

lemma lowAccuracy_report_iff:
  "onError (gpsCallbacks g) \<Longrightarrow>
   Call_onError (LOW_ACCURACY acc) \<in> set (snd (gps_onLocationUpdate la lo acc spd now g)) \<longleftrightarrow>
     acc > (if locationUpdateCount g + 1 < 5 then 200 else 100)"
  by (simp add: gps_onLocationUpdate_def Let_def split: option.splits)

text \<open>
  C3, counterexample. The claim selects the threshold by the number of fixes accepted so
  far. After four accepted fixes (fewer than five) a fix of accuracy 150 m is within the
  claimed threshold of 200 m, yet the tracker rejects it for low accuracy; after four
  rejected fixes (none accepted) the same happens.
\<close>

theorem accuracy_gate_spec_counterexample:
  "\<not> (list_ex isAccuracyRejection
        (snd (gps_onLocationUpdate 0 0 150 None 50000 (fst (gps_deliver goodFixes startedTracker))))
      \<longleftrightarrow> 150 > spec_accuracyThreshold (acceptedCount (snd (gps_deliver goodFixes startedTracker))))
   \<and>
   \<not> (list_ex isAccuracyRejection
        (snd (gps_onLocationUpdate 0 0 150 None 50000 (fst (gps_deliver poorFixes startedTracker))))
      \<longleftrightarrow> 150 > spec_accuracyThreshold (acceptedCount (snd (gps_deliver poorFixes startedTracker))))"
  by (simp add: goodFixes_def poorFixes_def startedTracker_eq gps_onLocationUpdate_def Let_def
      js_div_def acceptedCount_def spec_accuracyThreshold_def)

text \<open>
  C3, as the code has it. The counter is \<open>locationUpdateCount\<close>: it is reset when tracking
  starts and incremented on entry for every fix delivered, accepted or not, before the
  threshold is chosen. So the fix that arrives after \<open>length ds\<close> earlier deliveries is
  rejected for low accuracy exactly when its accuracy exceeds 200 m if it is one of the
  first four deliveries, and 100 m from the fifth delivery on; with \<open>onError\<close> installed
  the rejection is reported with code \<open>LOW_ACCURACY\<close> in exactly these cases. A fix
  rejected in this way is turned down: the call only counts the delivery, writes the
  warning and makes the report; \<open>lastValidLocation\<close> stays as it was, \<open>onUpdate\<close> is not
  called and the speed test is not reached.
\<close>

theorem accuracy_gate_by_update_count:
  assumes "\<not> isTracking g0"
    and "g = fst (gps_deliver ds (fst (gps_startTracking True (Some w) t0 g0)))"
  shows "(list_ex isAccuracyRejection (snd (gps_onLocationUpdate la lo acc spd now g)) \<longleftrightarrow>
            acc > (if length ds + 1 < 5 then 200 else 100)) \<and>
         (onError (gpsCallbacks g0) \<longrightarrow>
            (Call_onError (LOW_ACCURACY acc) \<in> set (snd (gps_onLocationUpdate la lo acc spd now g)) \<longleftrightarrow>
             acc > (if length ds + 1 < 5 then 200 else 100))) \<and>
         (acc > (if length ds + 1 < 5 then 200 else 100) \<longrightarrow>
            gps_onLocationUpdate la lo acc spd now g =
              (g\<lparr>locationUpdateCount := length ds + 1\<rparr>,
               Warn_lowAccuracy acc #
                 (if onError (gpsCallbacks g0) then [Call_onError (LOW_ACCURACY acc)] else [])) \<and>
            lastValidLocation (fst (gps_onLocationUpdate la lo acc spd now g)) = lastValidLocation g \<and>
            \<not> list_ex isAccepted (snd (gps_onLocationUpdate la lo acc spd now g)) \<and>
            \<not> list_ex isSpeedRejection (snd (gps_onLocationUpdate la lo acc spd now g)))"
proof -
  have c: "locationUpdateCount g = length ds"
    using assms by (simp add: locationUpdateCount_deliver gps_startTracking_def)
  have cb: "gpsCallbacks g = gpsCallbacks g0"
    using assms by (simp add: gpsCallbacks_deliver gps_startTracking_def)
  have rej: "gps_onLocationUpdate la lo acc spd now g =
      (g\<lparr>locationUpdateCount := length ds + 1\<rparr>,
       Warn_lowAccuracy acc #
         (if onError (gpsCallbacks g0) then [Call_onError (LOW_ACCURACY acc)] else []))"
    if "acc > (if length ds + 1 < 5 then 200 else 100)"
    using that by (simp add: gps_onLocationUpdate_def Let_def c cb)
  show ?thesis
    using lowAccuracy_iff[of la lo acc spd now g] lowAccuracy_report_iff[of g acc la lo spd now] rej
    by (simp add: c cb)
qed

text \<open>
  C3, witness: the fifth delivery after a start, accuracy 150 m, is rejected and reported;
  the fourth fix stays the last valid location.
\<close>

theorem accuracy_gate_by_update_count_witness:
  "\<not> isTracking (gps_setCallbacks GPSTracker_new) \<and>
   (list_ex isAccuracyRejection (snd (gps_onLocationUpdate 0 0 150 None 50000
        (fst (gps_deliver goodFixes (fst (gps_startTracking True (Some 1) 0 (gps_setCallbacks GPSTracker_new))))))) \<longleftrightarrow>
      (150::real) > (if length goodFixes + 1 < 5 then 200 else 100)) \<and>
   onError (gpsCallbacks (gps_setCallbacks GPSTracker_new)) \<and>
   (Call_onError (LOW_ACCURACY 150) \<in> set (snd (gps_onLocationUpdate 0 0 150 None 50000
        (fst (gps_deliver goodFixes (fst (gps_startTracking True (Some 1) 0 (gps_setCallbacks GPSTracker_new))))))) \<longleftrightarrow>
       (150::real) > (if length goodFixes + 1 < 5 then 200 else 100)) \<and>
   (150::real) > (if length goodFixes + 1 < 5 then 200 else 100) \<and>
   snd (gps_onLocationUpdate 0 0 150 None 50000
        (fst (gps_deliver goodFixes (fst (gps_startTracking True (Some 1) 0 (gps_setCallbacks GPSTracker_new)))))) =
     [Warn_lowAccuracy 150, Call_onError (LOW_ACCURACY 150)] \<and>
   lastValidLocation (fst (gps_onLocationUpdate 0 0 150 None 50000
        (fst (gps_deliver goodFixes (fst (gps_startTracking True (Some 1) 0 (gps_setCallbacks GPSTracker_new))))))) =
     Some \<lparr>lat = 0, lng = 0, timestamp = 40000, accuracy = 10, speed = 0, dataIsTracking = True\<rparr> \<and>
   \<not> list_ex isAccepted (snd (gps_onLocationUpdate 0 0 150 None 50000
        (fst (gps_deliver goodFixes (fst (gps_startTracking True (Some 1) 0 (gps_setCallbacks GPSTracker_new)))))))"
proof -
  have h: "\<not> isTracking (gps_setCallbacks GPSTracker_new)"
    by (simp add: gps_setCallbacks_def GPSTracker_new_def)
  have cb: "onError (gpsCallbacks (gps_setCallbacks GPSTracker_new))"
    by (simp add: gps_setCallbacks_def)
  have lv: "lastValidLocation (fst (gps_deliver goodFixes
        (fst (gps_startTracking True (Some 1) 0 (gps_setCallbacks GPSTracker_new))))) =
     Some \<lparr>lat = 0, lng = 0, timestamp = 40000, accuracy = 10, speed = 0, dataIsTracking = True\<rparr>"
    by (simp add: goodFixes_def gps_startTracking_def gps_setCallbacks_def GPSTracker_new_def
        gps_onLocationUpdate_def Let_def js_div_def)
  show ?thesis
    using h cb lv accuracy_gate_by_update_count[OF h refl, where ds = goodFixes and w = 1 and ?t0.0 = 0
        and la = 0 and lo = 0 and acc = 150 and spd = None and now = 50000] by (simp add: goodFixes_def)
qed

lemma speed_gate_cases:
  assumes prev: "lastValidLocation g = Some prev"
    and accOK: "acc \<le> (if locationUpdateCount g + 1 < 5 then 200 else 100)"
  shows "gps_onLocationUpdate la lo acc spd now g =
     (let g1 = g\<lparr>locationUpdateCount := locationUpdateCount g + 1\<rparr>;
          distance = calculateDistance (lat prev) (lng prev) la lo;
          timeDiff = real_of_int (now - timestamp prev) / 1000;
          locationData = \<lparr>lat = la, lng = lo, timestamp = now, accuracy = acc,
                          speed = (case spd of None \<Rightarrow> 0 | Some v \<Rightarrow> v),
                          dataIsTracking = (isTracking g \<and> \<not> isPaused g)\<rparr>
      in if js_gt (js_div distance timeDiff) (556 / 10)
         then (g1, [Warn_abnormalJump (js_div distance timeDiff) distance])
         else (g1\<lparr>lastValidLocation := Some locationData\<rparr>,
               if onUpdate (gpsCallbacks g) then [Call_onUpdate locationData] else []))"
  using assms by (simp add: gps_onLocationUpdate_def Let_def not_less[symmetric] del: not_less)

lemma js_speed_test:
  "0 \<le> d \<Longrightarrow> js_gt (js_div d t) (556 / 10) \<longleftrightarrow> (0 < t \<and> d / t > 556 / 10) \<or> (t = 0 \<and> 0 < d)"
proof (cases "t = 0")
  case True
  then show ?thesis by (simp add: js_div_def)
next
  case False
  assume d: "0 \<le> d"
  show ?thesis
  proof (cases "0 < t")
    case True then show ?thesis by (simp add: js_div_def)
  next
    case neg: False
    then have "t < 0" using False by simp
    then have "d / t \<le> 0" using d by (simp add: divide_nonneg_neg)
    then have "\<not> 556 / 10 < d / t" by linarith
    then show ?thesis using neg False by (simp add: js_div_def)
  qed
qed

text \<open>
  The speed test is \<open>distance / timeDiff > 55.6\<close> and nothing else; \<open>timeDiff\<close> is not
  examined before the division. With a negative elapsed time the quotient of a distance
  (non-negative or NaN) is never above 55.6, so no fix that is older than the prior
  accepted fix is turned down by the speed test.
\<close>

lemma negative_elapsed_never_rejected:
  assumes prev: "lastValidLocation g = Some prev" and neg_el: "now < timestamp prev"
  shows "\<not> list_ex isSpeedRejection (snd (gps_onLocationUpdate la lo acc spd now g))"
proof -
  have nn: "0 \<le> calculateDistance (lat prev) (lng prev) la lo" by (rule calculateDistance_nonneg)
  have neg: "real_of_int (now - timestamp prev) / 1000 < 0" using neg_el by simp
  then have "calculateDistance (lat prev) (lng prev) la lo / (real_of_int (now - timestamp prev) / 1000) \<le> 0"
    using nn by (simp add: divide_nonneg_neg)
  then have "\<not> js_gt (js_div (calculateDistance (lat prev) (lng prev) la lo)
      (real_of_int (now - timestamp prev) / 1000)) (556 / 10)"
    using neg by (simp add: js_div_def)
  then show ?thesis
    using prev by (simp add: gps_onLocationUpdate_def Let_def)
qed

text \<open>
  With an elapsed time of zero at the place of the prior fix, the quotient is \<open>0 / 0\<close>,
  NaN, and the comparison is false.
\<close>

lemma zero_elapsed_same_place_not_rejected:
  assumes prev: "lastValidLocation g = Some prev" and same: "now = timestamp prev"
    "la = lat prev" "lo = lng prev"
  shows "\<not> list_ex isSpeedRejection (snd (gps_onLocationUpdate la lo acc spd now g))"
  using assms by (simp add: gps_onLocationUpdate_def Let_def js_div_def)

text \<open>
  In both cases a fix that passes the accuracy gate is accepted: it becomes the new
  \<open>lastValidLocation\<close>.
\<close>

lemma nonpositive_elapsed_fix_accepted:
  assumes prev: "lastValidLocation g = Some prev"
    and accOK: "acc \<le> (if locationUpdateCount g + 1 < 5 then 200 else 100)"
    and el: "now < timestamp prev \<or> (now = timestamp prev \<and> la = lat prev \<and> lo = lng prev)"
  shows "lastValidLocation (fst (gps_onLocationUpdate la lo acc spd now g)) =
           Some \<lparr>lat = la, lng = lo, timestamp = now, accuracy = acc,
                  speed = (case spd of None \<Rightarrow> 0 | Some v \<Rightarrow> v),
                  dataIsTracking = (isTracking g \<and> \<not> isPaused g)\<rparr>"
proof -
  have nn: "0 \<le> calculateDistance (lat prev) (lng prev) la lo" by (rule calculateDistance_nonneg)
  show ?thesis
    unfolding speed_gate_cases[OF prev accOK] Let_def
    using js_speed_test[OF nn, of "real_of_int (now - timestamp prev) / 1000"] el
    by auto
qed

text \<open>
  C4, the code at the failing input. The prior fix was accepted at time 10000 ms at the
  origin. A fix at the same place read at the same instant (elapsed time 0) and a fix read
  at 5000 ms, a quarter of the equator away (elapsed time \<open>-5\<close> s), are both accepted:
  each is handed to \<open>onUpdate\<close> and replaces the prior fix as \<open>lastValidLocation\<close>,
  where the claim has them rejected.
\<close>

theorem elapsed_nonpositive_accepted:
  "real_of_int (10000 - timestamp (the (lastValidLocation trackerAfterFirstFix))) / 1000 \<le> 0 \<and>
   gps_onLocationUpdate 0 0 10 None 10000 trackerAfterFirstFix =
     (trackerAfterFirstFix\<lparr>locationUpdateCount := 2, lastValidLocation :=
        Some \<lparr>lat = 0, lng = 0, timestamp = 10000, accuracy = 10, speed = 0,
               dataIsTracking = True\<rparr>\<rparr>,
      [Call_onUpdate \<lparr>lat = 0, lng = 0, timestamp = 10000, accuracy = 10, speed = 0,
                       dataIsTracking = True\<rparr>]) \<and>
   real_of_int (5000 - timestamp (the (lastValidLocation trackerAfterFirstFix))) / 1000 \<le> 0 \<and>
   gps_onLocationUpdate 0 90 10 None 5000 trackerAfterFirstFix =
     (trackerAfterFirstFix\<lparr>locationUpdateCount := 2, lastValidLocation :=
        Some \<lparr>lat = 0, lng = 90, timestamp = 5000, accuracy = 10, speed = 0,
               dataIsTracking = True\<rparr>\<rparr>,
      [Call_onUpdate \<lparr>lat = 0, lng = 90, timestamp = 5000, accuracy = 10, speed = 0,
                       dataIsTracking = True\<rparr>])"
proof -
  have "\<not> 278 < - (3185500 * pi)" using pi_gt_zero by linarith
  then show ?thesis
    by (simp add: trackerAfterFirstFix_eq gps_onLocationUpdate_def Let_def js_div_def
        calculateDistance_quarter)
qed

text \<open>
  C5, the code at the failing input. With all callbacks installed, a fix rejected for its
  implied speed produces the console warning only: no \<open>onError\<close> call is made, whereas a
  fix rejected for low accuracy in the same state is reported through \<open>onError\<close>.
\<close>

theorem speed_rejection_unreported:
  "snd (gps_onLocationUpdate 0 90 10 None 11000 trackerAfterFirstFix) =
     [Warn_abnormalJump (Finite (6371000 * pi / 2)) (6371000 * pi / 2)] \<and>
   \<not> list_ex isReport (snd (gps_onLocationUpdate 0 90 10 None 11000 trackerAfterFirstFix)) \<and>
   onError (gpsCallbacks trackerAfterFirstFix) \<and>
   list_ex isReport (snd (gps_onLocationUpdate 0 90 250 None 11000 trackerAfterFirstFix))"
proof -
  have fast: "(556 / 10 :: real) < 6371000 * pi / 2"
    using pi_ge_two by simp
  show ?thesis using fast
    by (simp add: trackerAfterFirstFix_eq gps_onLocationUpdate_def Let_def js_div_def
      calculateDistance_quarter)
qed

text \<open>
  In general: whenever the speed gate turns a fix down, the effects of the call are the
  one console warning, so neither \<open>onError\<close> nor \<open>onUpdate\<close> is invoked.
\<close>

lemma speed_rejection_silent:
  assumes "list_ex isSpeedRejection (snd (gps_onLocationUpdate la lo acc spd now g))"
  shows "\<not> list_ex isReport (snd (gps_onLocationUpdate la lo acc spd now g)) \<and>
         \<not> list_ex isAccepted (snd (gps_onLocationUpdate la lo acc spd now g))"
  using assms
  by (auto simp: gps_onLocationUpdate_def Let_def split: option.splits if_splits)

section \<open>The live route\<close>

lemma legs_snoc: "ps \<noteq> [] \<Longrightarrow>
  legs (ps @ [q]) = legs ps @ [calculateDistance (lat (last ps)) (lng (last ps)) (lat q) (lng q)]"
  by (induction ps rule: legs.induct) auto

lemma pathLength_snoc: "ps \<noteq> [] \<Longrightarrow>
  pathLength (ps @ [q]) = pathLength ps + calculateDistance (lat (last ps)) (lng (last ps)) (lat q) (lng q)"
  by (simp add: pathLength_def legs_snoc)

lemma pathLength_single [simp]: "pathLength [q] = 0" "pathLength [] = 0"
  by (simp_all add: pathLength_def)

lemma inv_onLocationUpdate:
  assumes "liveRouteConsistent t a" and "dataIsTracking d \<Longrightarrow> t"
  shows "liveRouteConsistent t (app_onLocationUpdate d a)"
proof (cases "currentRoute a")
  case None
  then show ?thesis using assms by (simp add: app_onLocationUpdate_def)
next
  case (Some r)
  show ?thesis
  proof (cases "dataIsTracking d")
    case False
    then show ?thesis using assms Some by (simp add: app_onLocationUpdate_def)
  next
    case True
    then have t: t using assms(2) by simp
    from assms(1) t Some have r: "distance r = pathLength (points r)"
      "lastPosition a = (if points r = [] then None
                else Some \<lparr>lat = lat (last (points r)), lng = lng (last (points r))\<rparr>)"
      by (simp_all add: liveRouteConsistent_def)
    show ?thesis
    proof (cases "points r = []")
      case True
      then show ?thesis using r t Some \<open>dataIsTracking d\<close>
        by (simp add: app_onLocationUpdate_def liveRouteConsistent_def Let_def)
    next
      case False
      then show ?thesis using r t Some \<open>dataIsTracking d\<close>
        by (simp add: app_onLocationUpdate_def liveRouteConsistent_def Let_def pathLength_snoc)
    qed
  qed
qed

lemma inv_onTrackingStart:
  "liveRouteConsistent False a \<Longrightarrow> liveRouteConsistent True (app_onTrackingStart now fresh a)"
  by (simp add: liveRouteConsistent_def app_onTrackingStart_def)

lemma inv_onTrackingStop: "liveRouteConsistent t (app_onTrackingStop now a)"
  by (simp add: liveRouteConsistent_def app_onTrackingStop_def Let_def split: option.splits)

lemma inv_clearAllRoutes:
  "liveRouteConsistent t a \<Longrightarrow> liveRouteConsistent t (app_clearAllRoutes a)"
  by (simp add: liveRouteConsistent_def app_clearAllRoutes_def)

lemma step_consistent: "systemConsistent s \<Longrightarrow> systemConsistent (step s ev)"
proof (cases ev)
  case (Ev_start geo watch now fresh)
  assume inv: "systemConsistent s"
  show ?thesis
  proof (cases "isTracking (sysGps s)")
    case True
    then show ?thesis using inv by (simp add: Ev_start gps_startTracking_def systemConsistent_def)
  next
    case False
    then have lc: "liveRouteConsistent False (sysApp s)" using inv by (simp add: systemConsistent_def)
    show ?thesis
    proof (cases "geo \<and> watch \<noteq> None")
      case True
      then obtain w where w: "watch = Some w" by auto
      show ?thesis using inv False True w inv_onTrackingStart[OF lc, of now fresh]
        by (simp add: Ev_start gps_startTracking_def systemConsistent_def Let_def)
    next
      case nogo: False
      then show ?thesis using inv False
        by (cases watch) (auto simp: Ev_start gps_startTracking_def gps_handleError_def systemConsistent_def Let_def)
    qed
  qed
next
  case Ev_pause
  assume inv: "systemConsistent s"
  then show ?thesis
    by (auto simp: Ev_pause gps_pauseTracking_def systemConsistent_def Let_def)
next
  case (Ev_stop now)
  assume inv: "systemConsistent s"
  then show ?thesis using inv_onTrackingStop[of False now "sysApp s"]
    by (auto simp: Ev_stop gps_stopTracking_def systemConsistent_def Let_def split: option.splits)
next
  case (Ev_position la lo acc spd now)
  assume inv: "systemConsistent s"
  define d where "d = \<lparr>lat = la, lng = lo, timestamp = now, accuracy = acc,
                          speed = (case spd of None \<Rightarrow> 0 | Some v \<Rightarrow> v),
                          dataIsTracking = (isTracking (sysGps s) \<and> \<not> isPaused (sysGps s))\<rparr>"
  have upd: "liveRouteConsistent (isTracking (sysGps s)) (app_onLocationUpdate d (sysApp s))"
    using inv by (intro inv_onLocationUpdate) (simp_all add: systemConsistent_def d_def)
  show ?thesis using inv upd
    by (auto simp: Ev_position gps_onLocationUpdate_def systemConsistent_def Let_def d_def
        split: option.splits)
next
  case (Ev_sensorError code now)
  assume inv: "systemConsistent s"
  then show ?thesis using inv_onTrackingStop[of False now "sysApp s"]
    by (auto simp: Ev_sensorError gps_handleError_def gps_stopTracking_def systemConsistent_def Let_def
        split: option.splits)
next
  case Ev_clearAllRoutes
  assume inv: "systemConsistent s"
  then show ?thesis using inv_clearAllRoutes[of "isTracking (sysGps s)" "sysApp s"]
    by (simp add: Ev_clearAllRoutes systemConsistent_def)
qed

lemma run_consistent: "systemConsistent s \<Longrightarrow> systemConsistent (foldl step s evs)"
  by (induction evs arbitrary: s) (simp_all add: step_consistent)

lemma init_consistent: "systemConsistent (app_init saved)"
  by (simp add: systemConsistent_def app_init_def gps_setCallbacks_def GPSTracker_new_def
      liveRouteConsistent_def app_loadSavedData_def app_new_def Let_def split: option.splits)

lemma start_discards_restored_route:
  "currentRoute (sysApp (step (app_init saved) (Ev_start True (Some w) now fresh))) =
     Some \<lparr>route_id = fresh, points = [], startTime = now, endTime = None, distance = 0\<rparr>"
  by (simp add: app_init_def gps_setCallbacks_def GPSTracker_new_def gps_startTracking_def
      Let_def app_onTrackingStart_def)

text \<open>
  C1. Whatever was saved and restored at start-up, and whatever the user and the sensor do
  afterwards, the live route of a tracking session has as its distance the sum of the
  great-circle distances between its consecutive points, added in the order of the
  points. A restored live route is covered: \<open>lastPosition\<close> is never restored with it,
  but tracking can only begin through \<open>onTrackingStart\<close>, which replaces the restored
  route by an empty one before any fix is appended.
\<close>

theorem live_route_distance:
  assumes "isTracking (sysGps (foldl step (app_init saved) events))"
    and "currentRoute (sysApp (foldl step (app_init saved) events)) = Some r"
  shows "distance r = pathLength (points r)"
  using run_consistent[OF init_consistent, of saved events] assms
  by (simp add: systemConsistent_def liveRouteConsistent_def)

lemma quarter_bounds: "\<not> 6371000 * pi / 2 \<le> 50" "\<not> 556 / 10 < 6371000 * pi / 2 / 300000"
  using pi_ge_two pi_less_4 by simp_all

lemma session_state:
  "currentRoute (sysApp (foldl step (app_init (Some savedWithLiveRoute)) sessionEvents)) =
     Some \<lparr>route_id = ''new'',
           points = [\<lparr>lat = 0, lng = 0, timestamp = 2000, accuracy = 10\<rparr>,
                     \<lparr>lat = 0, lng = 90, timestamp = 300002000, accuracy = 10\<rparr>],
           startTime = 1000, endTime = None, distance = 6371000 * pi / 2\<rparr> \<and>
   isTracking (sysGps (foldl step (app_init (Some savedWithLiveRoute)) sessionEvents))"
  using quarter_bounds
  by (simp add: app_init_def savedWithLiveRoute_def sessionEvents_def gps_setCallbacks_def
      GPSTracker_new_def app_loadSavedData_def app_new_def gps_startTracking_def Let_def
      app_onTrackingStart_def gps_onLocationUpdate_def app_onLocationUpdate_def
      checkStayArea_def js_div_def calculateDistance_quarter STAY_RADIUS_def)

text \<open>
  C1, witness: a live route restored at start-up, then a session with two accepted fixes.
\<close>

theorem live_route_distance_witness:
  "isTracking (sysGps (foldl step (app_init (Some savedWithLiveRoute)) sessionEvents)) \<and>
   currentRoute (sysApp (foldl step (app_init (Some savedWithLiveRoute)) sessionEvents)) =
     Some \<lparr>route_id = ''new'',
           points = [\<lparr>lat = 0, lng = 0, timestamp = 2000, accuracy = 10\<rparr>,
                     \<lparr>lat = 0, lng = 90, timestamp = 300002000, accuracy = 10\<rparr>],
           startTime = 1000, endTime = None, distance = 6371000 * pi / 2\<rparr> \<and>
   6371000 * pi / 2 =
     pathLength [\<lparr>lat = 0, lng = 0, timestamp = 2000, accuracy = 10\<rparr>,
                 \<lparr>lat = 0, lng = 90, timestamp = 300002000, accuracy = 10\<rparr>]"
proof -
  note st = session_state
  from live_route_distance[OF conjunct2[OF st] conjunct1[OF st]]
  show ?thesis using st by simp
qed

section \<open>Stay areas\<close>

lemma findStayArea_bound: "findStayArea areas la lo n = Some i \<Longrightarrow> i < n"
  by (induction n) (auto split: if_splits)

lemma areaAdvanced_refl: "areaAdvanced a a"
  by (simp add: areaAdvanced_def)

lemma areasAdvanced_refl: "areasAdvanced A A"
  by (simp add: areasAdvanced_def list_all2_same list.rel_refl areaAdvanced_refl)

lemma areasAdvanced_nth:
  "areasAdvanced A B \<longleftrightarrow> length A \<le> length B \<and> (\<forall>i < length A. areaAdvanced (A ! i) (B ! i))"
  by (auto simp: areasAdvanced_def list_all2_conv_all_nth)

lemma areaAdvanced_trans: "areaAdvanced a b \<Longrightarrow> areaAdvanced b c \<Longrightarrow> areaAdvanced a c"
  by (auto simp: areaAdvanced_def split: if_splits)

lemma areasAdvanced_trans:
  assumes "areasAdvanced A B" and "areasAdvanced B C"
  shows "areasAdvanced A C"
proof -
  have len: "length A \<le> length B" "length B \<le> length C"
    using assms by (simp_all add: areasAdvanced_nth)
  have "areaAdvanced (A ! i) (C ! i)" if "i < length A" for i
  proof -
    have "areaAdvanced (A ! i) (B ! i)" using assms(1) that by (simp add: areasAdvanced_nth)
    moreover have "areaAdvanced (B ! i) (C ! i)" using assms(2) that len by (simp add: areasAdvanced_nth)
    ultimately show ?thesis by (rule areaAdvanced_trans)
  qed
  then show ?thesis using len by (simp add: areasAdvanced_nth)
qed

lemma observe_append: "observe (xs @ ys) areas = observe ys (observe xs areas)"
  by (induction xs arbitrary: areas) auto

lemma areasWellFormed_nth:
  "areasWellFormed areas t \<longleftrightarrow>
     (\<forall>i < length areas. duration (areas ! i) = areaEndTime (areas ! i) - areaStartTime (areas ! i) \<and>
        areaEndTime (areas ! i) \<le> t \<and> (drawn (areas ! i) \<longrightarrow> STAY_THRESHOLD \<le> duration (areas ! i)))"
  by (auto simp: areasWellFormed_def list_all_length)

lemma areasSettled_nth:
  "areasSettled start areas \<longleftrightarrow>
     (\<forall>i < length areas. (i < length start \<and> areas ! i = start ! i) \<or>
        drawn (areas ! i) = (STAY_THRESHOLD \<le> duration (areas ! i)))"
  by (auto simp: areasSettled_def list_all_iff)

lemma areasSettled_start: "areasSettled A A"
  by (simp add: areasSettled_nth)

lemma areasSettled_empty:
  "areasSettled [] A \<longleftrightarrow> list_all (\<lambda>a. drawn a = (STAY_THRESHOLD \<le> duration a)) A"
  by (simp add: areasSettled_nth list_all_length)

lemma drawn_update_same: "drawn (a :: stayArea) = b \<Longrightarrow> a\<lparr>drawn := b\<rparr> = a"
  by (cases a) simp

text \<open>
  A fix that matches an area, not earlier than the area's end: the area ends at the fix,
  its duration is the span from its start, and it is flagged exactly when that duration
  has reached the threshold, whatever the flag was before.
\<close>

lemma checkStayArea_matched:
  assumes wf: "areasWellFormed areas t" and le: "t \<le> ts"
    and found: "findStayArea areas la lo (length areas) = Some i"
  shows "checkStayArea areas la lo ts =
           areas[i := (areas ! i)\<lparr>areaEndTime := ts, duration := ts - areaStartTime (areas ! i),
                                  drawn := (STAY_THRESHOLD \<le> ts - areaStartTime (areas ! i))\<rparr>] \<and>
         i < length areas \<and> duration (areas ! i) \<le> ts - areaStartTime (areas ! i)"
proof -
  have i: "i < length areas" using found by (rule findStayArea_bound)
  have old: "duration (areas ! i) = areaEndTime (areas ! i) - areaStartTime (areas ! i)"
    "areaEndTime (areas ! i) \<le> t" "drawn (areas ! i) \<longrightarrow> STAY_THRESHOLD \<le> duration (areas ! i)"
    using wf i unfolding areasWellFormed_nth by blast+
  have mono: "duration (areas ! i) \<le> ts - areaStartTime (areas ! i)" using old le by simp
  have "checkStayArea areas la lo ts =
      areas[i := (areas ! i)\<lparr>areaEndTime := ts, duration := ts - areaStartTime (areas ! i),
                             drawn := (STAY_THRESHOLD \<le> ts - areaStartTime (areas ! i))\<rparr>]"
    using found old(3) mono by (auto simp: checkStayArea_def Let_def drawn_update_same)
  then show ?thesis using i mono by simp
qed

lemma checkStayArea_step_from:
  assumes wf: "areasWellFormed areas t" and st: "areasSettled start areas"
    and le: "t \<le> ts"
  shows "areasWellFormed (checkStayArea areas la lo ts) ts \<and>
         areasSettled start (checkStayArea areas la lo ts) \<and>
         areasAdvanced areas (checkStayArea areas la lo ts)"
proof (cases "findStayArea areas la lo (length areas)")
  case None
  then have eq: "checkStayArea areas la lo ts =
      areas @ [\<lparr>lat = la, lng = lo, areaStartTime = ts, areaEndTime = ts, duration = 0, drawn = False\<rparr>]"
    by (simp add: checkStayArea_def)
  have "areasWellFormed (checkStayArea areas la lo ts) ts"
    using wf le unfolding eq areasWellFormed_nth
    by (auto simp: nth_append less_Suc_eq)
  moreover have "areasSettled start (checkStayArea areas la lo ts)"
    using st unfolding eq areasSettled_nth
    by (auto simp: nth_append less_Suc_eq STAY_THRESHOLD_def)
  moreover have "areasAdvanced areas (checkStayArea areas la lo ts)"
    unfolding eq areasAdvanced_nth by (simp add: nth_append areaAdvanced_refl)
  ultimately show ?thesis by simp
next
  case (Some i)
  define a3 where "a3 = (areas ! i)\<lparr>areaEndTime := ts, duration := ts - areaStartTime (areas ! i),
                                  drawn := (STAY_THRESHOLD \<le> ts - areaStartTime (areas ! i))\<rparr>"
  from checkStayArea_matched[OF wf le Some]
  have eq: "checkStayArea areas la lo ts = areas[i := a3]" and i: "i < length areas"
    and mono: "duration (areas ! i) \<le> ts - areaStartTime (areas ! i)"
    by (simp_all add: a3_def)
  have old: "drawn (areas ! i) \<longrightarrow> STAY_THRESHOLD \<le> duration (areas ! i)"
    using wf i unfolding areasWellFormed_nth by blast
  have w: "areasWellFormed (areas[i := a3]) ts"
    unfolding areasWellFormed_nth
  proof (intro allI impI)
    fix j assume j: "j < length (areas[i := a3])"
    show "duration (areas[i := a3] ! j) = areaEndTime (areas[i := a3] ! j) - areaStartTime (areas[i := a3] ! j) \<and>
        areaEndTime (areas[i := a3] ! j) \<le> ts \<and>
        (drawn (areas[i := a3] ! j) \<longrightarrow> STAY_THRESHOLD \<le> duration (areas[i := a3] ! j))"
    proof (cases "j = i")
      case True then show ?thesis using i by (simp add: a3_def)
    next
      case False
      have jl: "j < length areas" using j by simp
      have "duration (areas ! j) = areaEndTime (areas ! j) - areaStartTime (areas ! j)"
        "areaEndTime (areas ! j) \<le> t" "drawn (areas ! j) \<longrightarrow> STAY_THRESHOLD \<le> duration (areas ! j)"
        using wf jl unfolding areasWellFormed_nth by blast+
      then show ?thesis using False le by simp
    qed
  qed
  have s: "areasSettled start (areas[i := a3])"
    unfolding areasSettled_nth
  proof (intro allI impI)
    fix j assume j: "j < length (areas[i := a3])"
    show "(j < length start \<and> areas[i := a3] ! j = start ! j) \<or>
        drawn (areas[i := a3] ! j) = (STAY_THRESHOLD \<le> duration (areas[i := a3] ! j))"
    proof (cases "j = i")
      case True then show ?thesis using i by (simp add: a3_def)
    next
      case False
      then show ?thesis using st j by (simp add: areasSettled_nth)
    qed
  qed
  have a: "areasAdvanced areas (areas[i := a3])"
    unfolding areasAdvanced_nth
  proof (intro conjI allI impI)
    show "length areas \<le> length (areas[i := a3])" by simp
    fix j assume j: "j < length areas"
    show "areaAdvanced (areas ! j) (areas[i := a3] ! j)"
    proof (cases "j = i")
      case True
      then show ?thesis using i mono old by (auto simp: areaAdvanced_def a3_def)
    next
      case False
      then show ?thesis by (simp add: areaAdvanced_refl)
    qed
  qed
  show ?thesis unfolding eq using w s a by simp
qed

lemma observe_run_from:
  assumes "areasWellFormed areas t" and "areasSettled start areas"
    and "sorted (t # map (\<lambda>ob. snd (snd ob)) obs)"
  shows "areasAdvanced areas (observe obs areas) \<and>
         areasSettled start (observe obs areas) \<and>
         areasWellFormed (observe obs areas) (last (t # map (\<lambda>ob. snd (snd ob)) obs))"
  using assms
proof (induction obs arbitrary: areas t)
  case Nil
  then show ?case by (simp add: areasAdvanced_refl)
next
  case (Cons ob obs)
  obtain la lo ts where ob: "ob = (la, lo, ts)" by (cases ob) auto
  have le: "t \<le> ts" using Cons.prems(3) by (simp add: ob)
  have srt: "sorted (ts # map (\<lambda>ob. snd (snd ob)) obs)" using Cons.prems(3) by (simp add: ob)
  from checkStayArea_step_from[OF Cons.prems(1,2) le, of la lo]
  have step: "areasWellFormed (checkStayArea areas la lo ts) ts"
    "areasSettled start (checkStayArea areas la lo ts)"
    "areasAdvanced areas (checkStayArea areas la lo ts)" by simp_all
  from Cons.IH[OF step(1) step(2) srt]
  have ih: "areasAdvanced (checkStayArea areas la lo ts) (observe obs (checkStayArea areas la lo ts))"
    "areasSettled start (observe obs (checkStayArea areas la lo ts))"
    "areasWellFormed (observe obs (checkStayArea areas la lo ts)) (last (ts # map (\<lambda>ob. snd (snd ob)) obs))"
    by simp_all
  show ?case using areasAdvanced_trans[OF step(3) ih(1)] ih(2) ih(3)
    by (simp add: ob)
qed

lemma stay_area_run_from:
  assumes wf: "areasWellFormed start t0"
    and srt: "sorted (t0 # map (\<lambda>ob. snd (snd ob)) (earlier @ later))"
  shows "areasAdvanced start (observe earlier start) \<and>
         areasAdvanced (observe earlier start) (observe (earlier @ later) start) \<and>
         areasSettled start (observe earlier start) \<and>
         areasSettled start (observe (earlier @ later) start)"
proof -
  define t1 where "t1 = last (t0 # map (\<lambda>ob. snd (snd ob)) earlier)"
  have s1: "sorted (t0 # map (\<lambda>ob. snd (snd ob)) earlier)"
    using srt by (auto simp: sorted_append)
  have s2: "sorted (t1 # map (\<lambda>ob. snd (snd ob)) later)"
    using srt unfolding t1_def by (cases earlier rule: rev_cases) (auto simp: sorted_append)
  from observe_run_from[OF wf areasSettled_start s1]
  have r1: "areasAdvanced start (observe earlier start)"
    "areasSettled start (observe earlier start)"
    "areasWellFormed (observe earlier start) t1" by (simp_all add: t1_def)
  from observe_run_from[OF r1(3) r1(2) s2]
  have r2: "areasAdvanced (observe earlier start) (observe later (observe earlier start))"
    "areasSettled start (observe later (observe earlier start))" by simp_all
  show ?thesis using r1 r2 by (simp add: observe_append)
qed

text \<open>
  The condition on the starting list is kept by a save and a load, and holds for the areas
  of every run that started from none.
\<close>

lemma restored_wellFormed:
  "areasWellFormed areas t \<Longrightarrow> areasWellFormed (map roundedArea areas) t"
  by (simp add: areasWellFormed_def list_all_iff roundedArea_def)

lemma run_wellFormed:
  assumes "sorted (map (\<lambda>ob. snd (snd ob)) obs)" and "list_all (\<lambda>ob. snd (snd ob) \<le> t) obs"
  shows "areasWellFormed (observe obs []) t"
proof (cases obs rule: rev_cases)
  case Nil
  then show ?thesis by (simp add: areasWellFormed_def)
next
  case (snoc ys y)
  define t0 where "t0 = snd (snd (hd obs))"
  have w0: "areasWellFormed [] t0" by (simp add: areasWellFormed_def)
  have s: "sorted (t0 # map (\<lambda>ob. snd (snd ob)) obs)"
    using assms(1) by (cases obs) (simp_all add: t0_def)
  from observe_run_from[OF w0 areasSettled_start s]
  have "areasWellFormed (observe obs []) (snd (snd y))" using snoc by simp
  moreover have "snd (snd y) \<le> t" using assms(2) snoc by simp
  ultimately show ?thesis
    unfolding areasWellFormed_nth by (meson order_trans)
qed

section \<open>Commit and load\<close>

lemma simplifyPath_returns: "\<exists>ys. simplifyPath ps (1 / 100000) = Some ys"
  using simplifyPath_props[of "1 / 100000" ps] by auto

lemma compressPoints_eq: "compressPoints sm ps = Some (map compressPoint (storedPoints sm ps))"
proof (cases "\<not> compression sm \<or> length ps < 10")
  case True
  then show ?thesis by (auto simp: compressPoints_def storedPoints_def)
next
  case False
  obtain ys where "simplifyPath ps (1 / 100000) = Some ys" using simplifyPath_returns by blast
  then show ?thesis using False by (simp add: compressPoints_def storedPoints_def)
qed

lemma serializeRoute_eq: "serializeRoute sm r = Some (routeJson sm r)"
  by (simp add: serializeRoute_def compressPoints_eq routeJson_def)

lemma serializeData_eq: "serializeData sm now data = Some (serializedJs sm now data)"
proof -
  have "mapO (serializeRoute sm) rs = Some (map (routeJson sm) rs)" for rs
    by (induction rs) (simp_all add: serializeRoute_eq)
  then show ?thesis by (simp add: serializeData_def serializedJs_def)
qed

lemma restorePoint_compress: "restorePoint (compressPoint p) = Inr (restoredPointJs p)"
  by (simp add: restorePoint_def compressPoint_def restoredPointJs_def bindE_def propOf_def)

lemma asPoint_restored: "asPoint (restoredPointJs p) = Some (roundedPoint p)"
  by (simp add: asPoint_def restoredPointJs_def propOf_def roundedPoint_def)

lemma restoreRoute_routeJson: "restoreRoute (routeJson sm r) = Inr (restoredRouteJs sm r)"
proof -
  have pts: "mapE restorePoint (map compressPoint ps) = Inr (map restoredPointJs ps)" for ps
    by (induction ps) (simp_all add: bindE_def restorePoint_compress)
  show ?thesis
    by (cases "endTime r")
       (simp_all add: restoreRoute_def routeJson_def restoredRouteJs_def bindE_def propOf_def pts)
qed

lemma asRoute_restored: "asRoute (restoredRouteJs sm r) = Some (roundedRoute sm r)"
proof -
  have pts: "mapO asPoint (map restoredPointJs ps) = Some (map roundedPoint ps)" for ps
    by (induction ps) (simp_all add: asPoint_restored)
  show ?thesis
    by (cases "endTime r")
       (simp_all add: asRoute_def restoredRouteJs_def propOf_def pts roundedRoute_def)
qed

lemma restoreArea_serialized: "restoreArea (serializeArea a) = Inr (restoredAreaJs a)"
  by (simp add: restoreArea_def serializeArea_def restoredAreaJs_def bindE_def propOf_def)

lemma asStayArea_restored: "asStayArea (restoredAreaJs a) = Some (roundedArea a)"
  by (simp add: asStayArea_def restoredAreaJs_def propOf_def roundedArea_def)

lemma restoreData_serialized:
  "restoreData (Json (serializedJs sm now data)) = Inr (restoredJs sm now data, [])"
proof -
  have rs: "mapE restoreRoute (map (routeJson sm) rs) = Inr (map (restoredRouteJs sm) rs)" for rs
    by (induction rs) (simp_all add: bindE_def restoreRoute_routeJson)
  have as: "mapE restoreArea (map serializeArea xs) = Inr (map restoredAreaJs xs)" for xs
    by (induction xs) (simp_all add: bindE_def restoreArea_serialized)
  show ?thesis
    by (simp add: restoreData_def serializedJs_def restoredJs_def bindE_def propOf_def rs as orElse_def)
qed

lemma asSavedData_restored:
  "asSavedData (restoredJs sm now data) =
     Some \<lparr>routes = map (roundedRoute sm) (routes data),
           stayAreas = map roundedArea (stayAreas data),
           totalDistance = Math_round (totalDistance data),
           savedCurrentRoute = None\<rparr>"
proof -
  have rs: "mapO asRoute (map (restoredRouteJs sm) rs) = Some (map (roundedRoute sm) rs)" for rs
    by (induction rs) (simp_all add: asRoute_restored)
  have as: "mapO asStayArea (map restoredAreaJs xs) = Some (map roundedArea xs)" for xs
    by (induction xs) (simp_all add: asStayArea_restored)
  show ?thesis
    by (simp add: asSavedData_def restoredJs_def propOf_def rs as)
qed

lemma storageKey_backup_neq [simp]: "k @ ''_backup'' \<noteq> k" "k \<noteq> k @ ''_backup''"
  by (induction k) auto

lemma saveToStorage_fits:
  assumes "jsonLength h (serializedJs sm now data) \<le> maxStorageSize sm"
    and "accepts h (ls(storageKey sm \<mapsto> Json (serializedJs sm now data)))"
  shows "saveToStorage h sm now depth data ls =
           Some (True, ls(storageKey sm \<mapsto> Json (serializedJs sm now data)), [Status_saved])"
  using assms
  by (simp add: serializeData_eq JSON_stringify_def setItem_def)

lemma loadFromStorage_serialized:
  "loadFromStorage h sm (ls(storageKey sm \<mapsto> Json (serializedJs sm now data))) =
     (restoredJs sm now data, ls(storageKey sm \<mapsto> Json (serializedJs sm now data)), [])"
  by (simp add: loadFromStorage_def emptyText_def restoreData_serialized)

lemma round_trip_general:
  assumes "serializeData sm now data = Some doc"
    and "jsonLength h doc \<le> maxStorageSize sm"
    and "accepts h (ls(storageKey sm \<mapsto> Json doc))"
  shows "saveToStorage h sm now depth data ls = Some (True, ls(storageKey sm \<mapsto> Json doc), [Status_saved]) \<and>
         snd (loadFromStorage h sm (ls(storageKey sm \<mapsto> Json doc))) = (ls(storageKey sm \<mapsto> Json doc), []) \<and>
         asSavedData (fst (loadFromStorage h sm (ls(storageKey sm \<mapsto> Json doc)))) =
           Some \<lparr>routes = map (roundedRoute sm) (routes data),
                 stayAreas = map roundedArea (stayAreas data),
                 totalDistance = Math_round (totalDistance data),
                 savedCurrentRoute = None\<rparr>"
proof -
  have doc: "doc = serializedJs sm now data"
    using assms(1) by (simp add: serializeData_eq)
  show ?thesis
    using assms(2,3) unfolding doc
    by (simp add: saveToStorage_fits loadFromStorage_serialized asSavedData_restored del: saveToStorage.simps)
qed

text \<open>
  C8, as the code has it. When the serialized snapshot is within the quota and the browser
  stores it, the commit succeeds without eviction and a load returns the routes and stay
  areas of the snapshot with these changes and no others: coordinates are rounded to six
  decimals, the accuracy of every point and every distance to a whole number; a route of
  ten or more points keeps only the points the simplifier selects; an end time with time
  value 0 comes back as absent; the flag \<open>drawn\<close> of a stay area is not stored and comes
  back unset (the restored object has a property \<open>marker\<close> set to \<open>null\<close> in addition).
\<close>

theorem commit_load_round_trip:
  assumes "serializeData sm now data = Some doc"
    and "jsonLength h doc \<le> maxStorageSize sm"
    and "accepts h (ls(storageKey sm \<mapsto> Json doc))"
  shows "saveToStorage h sm now depth data ls =
           Some (True, ls(storageKey sm \<mapsto> Json doc), [Status_saved]) \<and>
         asSavedData (fst (loadFromStorage h sm (ls(storageKey sm \<mapsto> Json doc)))) =
           Some \<lparr>routes = map (roundedRoute sm) (routes data),
                 stayAreas = map roundedArea (stayAreas data),
                 totalDistance = Math_round (totalDistance data),
                 savedCurrentRoute = None\<rparr>"
  using round_trip_general[OF assms] by simp

lemma walk_fits:
  "jsonLength roomyHost (serializedJs StorageManager_new 5000 walkSnapshot) \<le> maxStorageSize StorageManager_new"
  "accepts roomyHost (Map.empty(storageKey StorageManager_new \<mapsto> Json (serializedJs StorageManager_new 5000 walkSnapshot)))"
  by (simp_all add: roomyHost_def StorageManager_new_def)

lemma walk_rounded:
  "map (roundedRoute StorageManager_new) (routes walkSnapshot) =
     [\<lparr>route_id = ''r1'',
       points = [\<lparr>lat = 1 / 2, lng = 1 / 4, timestamp = 1000, accuracy = 10\<rparr>],
       startTime = 1000, endTime = Some 2000, distance = 4\<rparr>]"
  "map roundedArea (stayAreas walkSnapshot) =
     [\<lparr>lat = 1 / 2, lng = 1 / 4, areaStartTime = 1000, areaEndTime = 3601000,
       duration = 3600000, drawn = False\<rparr>]"
  "Math_round (totalDistance walkSnapshot) = 4"
  by (simp_all add: walkSnapshot_def roundedRoute_def roundedArea_def roundedPoint_def
      storedPoints_def Math_round_def StorageManager_new_def)

text \<open>C8, witness: one route of one point and one stay area, committed and loaded.\<close>

theorem commit_load_round_trip_witness:
  "serializeData StorageManager_new 5000 walkSnapshot =
     Some (serializedJs StorageManager_new 5000 walkSnapshot) \<and>
   jsonLength roomyHost (serializedJs StorageManager_new 5000 walkSnapshot) \<le> maxStorageSize StorageManager_new \<and>
   accepts roomyHost (Map.empty(storageKey StorageManager_new \<mapsto>
     Json (serializedJs StorageManager_new 5000 walkSnapshot))) \<and>
   saveToStorage roomyHost StorageManager_new 5000 10 walkSnapshot Map.empty =
     Some (True, Map.empty(storageKey StorageManager_new \<mapsto>
             Json (serializedJs StorageManager_new 5000 walkSnapshot)), [Status_saved]) \<and>
   asSavedData (fst (loadFromStorage roomyHost StorageManager_new
       (Map.empty(storageKey StorageManager_new \<mapsto> Json (serializedJs StorageManager_new 5000 walkSnapshot))))) =
     Some \<lparr>routes = [\<lparr>route_id = ''r1'',
                        points = [\<lparr>lat = 1 / 2, lng = 1 / 4, timestamp = 1000, accuracy = 10\<rparr>],
                        startTime = 1000, endTime = Some 2000, distance = 4\<rparr>],
           stayAreas = [\<lparr>lat = 1 / 2, lng = 1 / 4, areaStartTime = 1000, areaEndTime = 3601000,
                          duration = 3600000, drawn = False\<rparr>],
           totalDistance = 4, savedCurrentRoute = None\<rparr>"
  using commit_load_round_trip[OF serializeData_eq walk_fits, of 10] serializeData_eq walk_fits walk_rounded
  by (simp del: saveToStorage.simps)

text \<open>
  C8, counterexample. With only the documented rounding the point would come back with
  its accuracy of 10.4 and the stay area with its flag; the load returns accuracy 10 and
  the flag unset.
\<close>

theorem round_trip_spec_counterexample:
  "(case saveToStorage roomyHost StorageManager_new 5000 10 walkSnapshot Map.empty of
      None \<Rightarrow> False
    | Some (ok, ls', logs) \<Rightarrow>
        ok \<and>
        asSavedData (fst (loadFromStorage roomyHost StorageManager_new ls')) \<noteq>
          Some (spec_roundTrip walkSnapshot) \<and>
        map_option (\<lambda>sd. map (\<lambda>r. map accuracy (points r)) (routes sd))
          (asSavedData (fst (loadFromStorage roomyHost StorageManager_new ls'))) = Some [[10]] \<and>
        map (\<lambda>r. map accuracy (points r)) (routes walkSnapshot) = [[52 / 5]] \<and>
        map_option (\<lambda>sd. map drawn (stayAreas sd))
          (asSavedData (fst (loadFromStorage roomyHost StorageManager_new ls'))) = Some [False] \<and>
        map drawn (stayAreas walkSnapshot) = [True])"
proof -
  note rt = round_trip_general[OF serializeData_eq walk_fits, of 10]
  have ne: "spec_roundTrip walkSnapshot \<noteq>
     \<lparr>routes = map (roundedRoute StorageManager_new) (routes walkSnapshot),
       stayAreas = map roundedArea (stayAreas walkSnapshot),
       totalDistance = Math_round (totalDistance walkSnapshot),
       savedCurrentRoute = None\<rparr>"
    unfolding walk_rounded by (simp add: spec_roundTrip_def walkSnapshot_def spec_roundedArea_def)
  show ?thesis
    using rt ne walk_rounded by (simp add: walkSnapshot_def del: saveToStorage.simps)
qed

section \<open>Corrupt data and the quota\<close>

lemma loadFromStorage_failure:
  assumes "ls (storageKey sm) = Some b" and "\<not> emptyText b" and "restoreData b = Inl e"
  shows "loadFromStorage h sm ls =
     (JNull,
      (if accepts h (ls(storageKey sm @ ''_backup'' \<mapsto> b))
       then (ls(storageKey sm @ ''_backup'' \<mapsto> b))(storageKey sm := None) else ls),
      Error_restoreFailed e #
      (if accepts h (ls(storageKey sm @ ''_backup'' \<mapsto> b)) then []
       else [Error_backupFailed QuotaExceededError]))"
  using assms
  by (simp add: loadFromStorage_def backupCorruptedData_def setItem_def removeItem_def)

text \<open>
  C9, as the code has it. For a stored, non-empty text whose deserialization throws
  (\<open>JSON.parse\<close> rejects it, or a property is read from \<open>null\<close>, or \<open>map\<close> is
  called on a value that is not an array), \<open>loadFromStorage\<close> returns \<open>null\<close> and throws
  nothing. If the browser accepts the write of the backup, the text then stands under the
  backup key and the primary key is cleared; if it refuses (\<open>QuotaExceededError\<close>), the
  store is left as it was, the text still under the primary key. In both cases the text
  is still in the store. An empty text under the primary key is taken for no data: the
  load returns \<open>null\<close> and changes nothing.
\<close>

theorem corrupt_blob_quarantine:
  assumes "ls (storageKey sm) = Some b" and "\<not> emptyText b" and "restoreData b = Inl e"
  shows "fst (loadFromStorage h sm ls) = JNull \<and>
         (if accepts h (ls(storageKey sm @ ''_backup'' \<mapsto> b))
          then fst (snd (loadFromStorage h sm ls)) (storageKey sm @ ''_backup'') = Some b \<and>
               fst (snd (loadFromStorage h sm ls)) (storageKey sm) = None
          else fst (snd (loadFromStorage h sm ls)) = ls) \<and>
         b \<in> ran (fst (snd (loadFromStorage h sm ls))) \<and>
         loadFromStorage h sm (ls(storageKey sm \<mapsto> Malformed [])) =
           (JNull, ls(storageKey sm \<mapsto> Malformed []), [])"
proof -
  note eq = loadFromStorage_failure[where ls = ls and sm = sm and b = b and e = e and h = h, OF assms]
  have empty: "loadFromStorage h sm (ls(storageKey sm \<mapsto> Malformed [])) =
           (JNull, ls(storageKey sm \<mapsto> Malformed []), [])"
    by (simp add: loadFromStorage_def emptyText_def)
  show ?thesis
  proof (cases "accepts h (ls(storageKey sm @ ''_backup'' \<mapsto> b))")
    case True
    have "((ls(storageKey sm @ ''_backup'' \<mapsto> b))(storageKey sm := None)) (storageKey sm @ ''_backup'') = Some b"
      by simp
    then have "b \<in> ran ((ls(storageKey sm @ ''_backup'' \<mapsto> b))(storageKey sm := None))"
      by (rule ranI)
    then show ?thesis using True empty by (simp add: eq)
  next
    case False
    have "b \<in> ran ls" using assms(1) by (rule ranI)
    then show ?thesis using False empty by (simp add: eq)
  qed
qed

lemma broken_facts:
  "brokenStore (storageKey StorageManager_new) = Some (Malformed ''{routes:['')"
  "\<not> emptyText (Malformed ''{routes:['')"
  "restoreData (Malformed ''{routes:['') = Inl SyntaxError"
  by (simp_all add: brokenStore_def StorageManager_new_def emptyText_def restoreData_def bindE_def)

lemma nullRoute_facts:
  "nullRouteStore (storageKey StorageManager_new) =
     Some (Json (JObj [(''version'', JStr ''2.1''), (''routes'', JArr [JNull]),
                   (''stayAreas'', JArr []), (''totalDistance'', JNum 0)]))"
  "\<not> emptyText (Json (JObj [(''version'', JStr ''2.1''), (''routes'', JArr [JNull]),
                   (''stayAreas'', JArr []), (''totalDistance'', JNum 0)]))"
  "restoreData (Json (JObj [(''version'', JStr ''2.1''), (''routes'', JArr [JNull]),
                   (''stayAreas'', JArr []), (''totalDistance'', JNum 0)])) = Inl TypeError"
  by (simp_all add: nullRouteStore_def StorageManager_new_def emptyText_def restoreData_def
      bindE_def propOf_def restoreRoute_def)

text \<open>
  C9, witness: a text that is not JSON, and a JSON text whose only route is \<open>null\<close>, each
  loaded in a browser that has room for the backup.
\<close>

theorem corrupt_blob_quarantine_witness:
  "brokenStore (storageKey StorageManager_new) = Some (Malformed ''{routes:['') \<and>
   \<not> emptyText (Malformed ''{routes:['') \<and>
   restoreData (Malformed ''{routes:['') = Inl SyntaxError \<and>
   fst (loadFromStorage roomyHost StorageManager_new brokenStore) = JNull \<and>
   fst (snd (loadFromStorage roomyHost StorageManager_new brokenStore)) ''daedongMap_data_backup'' =
     Some (Malformed ''{routes:['') \<and>
   fst (snd (loadFromStorage roomyHost StorageManager_new brokenStore)) ''daedongMap_data'' = None \<and>
   fst (loadFromStorage roomyHost StorageManager_new nullRouteStore) = JNull \<and>
   fst (snd (loadFromStorage roomyHost StorageManager_new nullRouteStore)) ''daedongMap_data'' = None"
  using corrupt_blob_quarantine[where ls = brokenStore and sm = StorageManager_new
        and b = "Malformed ''{routes:[''" and e = SyntaxError and h = roomyHost, OF broken_facts]
    corrupt_blob_quarantine[where ls = nullRouteStore and sm = StorageManager_new
        and b = "Json (JObj [(''version'', JStr ''2.1''), (''routes'', JArr [JNull]),
                   (''stayAreas'', JArr []), (''totalDistance'', JNum 0)])"
        and e = TypeError and h = roomyHost, OF nullRoute_facts] broken_facts
  by (simp add: roomyHost_def StorageManager_new_def)

text \<open>
  C9, counterexample. The store holds a text that is not JSON and has no room for another
  item: the load returns \<open>null\<close>, no backup key exists afterwards and the primary key
  still holds the text. And a stored empty text, which \<open>JSON.parse\<close> would reject, is
  taken for no data: the load returns \<open>null\<close> and leaves the store as it is.
\<close>

theorem backup_refused_counterexample:
  "brokenStore (storageKey StorageManager_new) = Some (Malformed ''{routes:['') \<and>
   restoreData (Malformed ''{routes:['') = Inl SyntaxError \<and>
   loadFromStorage fullHost StorageManager_new brokenStore =
     (JNull, brokenStore, [Error_restoreFailed SyntaxError, Error_backupFailed QuotaExceededError]) \<and>
   brokenStore (storageKey StorageManager_new @ ''_backup'') = None \<and>
   restoreData (Malformed []) = Inl SyntaxError \<and>
   loadFromStorage roomyHost StorageManager_new (Map.empty(''daedongMap_data'' \<mapsto> Malformed [])) =
     (JNull, Map.empty(''daedongMap_data'' \<mapsto> Malformed []), [])"
  using loadFromStorage_failure[where ls = brokenStore and sm = StorageManager_new
        and b = "Malformed ''{routes:[''" and e = SyntaxError and h = fullHost, OF broken_facts]
    broken_facts
  by (simp add: fullHost_def brokenStore_def StorageManager_new_def loadFromStorage_def
      emptyText_def restoreData_def bindE_def)

lemma cleanup_walk: "cleanupOldData 5000 walkSnapshot = walkSnapshot"
  by (simp add: cleanupOldData_def walkSnapshot_def)

text \<open>
  C2, the code at the failing input. The snapshot holds one route that started within the
  last 30 days, and its serialization is reported as 6000000 characters, above the quota
  of 5242880. No route is evicted, the text stays as long as it was, and
  \<open>_saveToStorage\<close> calls itself again after every clean-up: with room for \<open>depth\<close>
  nested calls it cleans up and retries \<open>depth + 1\<close> times, until the call stack is
  exhausted and the \<open>RangeError\<close> is caught. It does not stop after one retry.
\<close>

theorem oversize_retries_unbounded:
  "saveToStorage verboseHost StorageManager_new 5000 depth walkSnapshot ls =
     Some (False, ls,
           concat (replicate (Suc depth) [Warn_overQuota, Log_cleanedUp]) @
           [Error_saveFailed RangeError]) \<and>
   count_list (concat (replicate (Suc depth) [Warn_overQuota, Log_cleanedUp]) @
               [Error_saveFailed RangeError]) Log_cleanedUp = Suc depth"
proof -
  have big: "textLength verboseHost (JSON_stringify (serializedJs StorageManager_new 5000 walkSnapshot))
      > maxStorageSize StorageManager_new"
    by (simp add: verboseHost_def JSON_stringify_def StorageManager_new_def)
  have run: "saveToStorage verboseHost StorageManager_new 5000 depth walkSnapshot ls =
     Some (False, ls,
           concat (replicate (Suc depth) [Warn_overQuota, Log_cleanedUp]) @
           [Error_saveFailed RangeError])"
  proof (induction depth)
    case 0
    show ?case using big by (simp add: serializeData_eq)
  next
    case (Suc d)
    have "saveToStorage verboseHost StorageManager_new 5000 (Suc d) walkSnapshot ls =
        map_option (\<lambda>(ok, ls', logs). (ok, ls', Warn_overQuota # Log_cleanedUp # logs))
          (saveToStorage verboseHost StorageManager_new 5000 d walkSnapshot ls)"
      using big by (subst saveToStorage.simps) (simp add: serializeData_eq cleanup_walk del: saveToStorage.simps)
    then show ?case by (simp add: Suc.IH del: saveToStorage.simps)
  qed
  have cnt: "count_list (concat (replicate n [Warn_overQuota, Log_cleanedUp]) @
               [Error_saveFailed RangeError]) Log_cleanedUp = n" for n
    by (induction n) simp_all
  show ?thesis using run cnt[of "Suc depth"] by (simp del: saveToStorage.simps replicate.simps)
qed

text \<open>
  The other half of the behaviour: when the clean-up brings the text within the quota,
  the first retry writes it.
\<close>

lemma eviction_then_retry_succeeds:
  assumes "jsonLength h (serializedJs sm now data) > maxStorageSize sm"
    and "jsonLength h (serializedJs sm now (cleanupOldData now data)) \<le> maxStorageSize sm"
    and "accepts h (ls(storageKey sm \<mapsto> Json (serializedJs sm now (cleanupOldData now data))))"
  shows "saveToStorage h sm now (Suc depth) data ls =
     Some (True, ls(storageKey sm \<mapsto> Json (serializedJs sm now (cleanupOldData now data))),
           [Warn_overQuota, Log_cleanedUp, Status_saved])"
proof -
  have "saveToStorage h sm now (Suc depth) data ls =
        map_option (\<lambda>(ok, ls', logs). (ok, ls', Warn_overQuota # Log_cleanedUp # logs))
          (saveToStorage h sm now depth (cleanupOldData now data) ls)"
    using assms(1)
    by (subst saveToStorage.simps) (simp add: serializeData_eq JSON_stringify_def del: saveToStorage.simps)
  then show ?thesis using saveToStorage_fits[OF assms(2,3), of depth] by (simp del: saveToStorage.simps)
qed

section \<open>Compression of a route, and stay areas across a reload\<close>

text \<open>
  C7, as the code has it. For a non-empty path and a tolerance that is not negative the
  simplifier returns a non-empty path with the first and the last point of its input and
  no more points than its input. \<open>_compressPoints\<close> stores such a selection of the
  points, and for fewer than ten points it stores all of them, in order; every stored
  point is written by \<open>compressPoint\<close>, which rounds the coordinates to six decimals and
  the accuracy to a whole number.
\<close>

theorem simplify_endpoints_and_passthrough:
  assumes "pts \<noteq> []" and "0 \<le> tolerance"
  shows "(\<exists>ys. simplifyPath pts tolerance = Some ys \<and> ys \<noteq> [] \<and> hd ys = hd pts \<and>
            last ys = last pts \<and> length ys \<le> length pts) \<and>
         (\<exists>ys. compressPoints sm pts = Some (map compressPoint ys) \<and> ys \<noteq> [] \<and> hd ys = hd pts \<and>
            last ys = last pts \<and> length ys \<le> length pts \<and>
            (if length pts < 10 then ys = pts else True))"
proof -
  from simplifyPath_props[OF assms(2), of pts] assms(1)
  have a: "\<exists>ys. simplifyPath pts tolerance = Some ys \<and> ys \<noteq> [] \<and> hd ys = hd pts \<and>
            last ys = last pts \<and> length ys \<le> length pts" by blast
  have "storedPoints sm pts \<noteq> [] \<and> hd (storedPoints sm pts) = hd pts \<and>
        last (storedPoints sm pts) = last pts \<and> length (storedPoints sm pts) \<le> length pts \<and>
        (if length pts < 10 then storedPoints sm pts = pts else True)"
  proof (cases "\<not> compression sm \<or> length pts < 10")
    case True
    then show ?thesis using assms(1) by (auto simp: storedPoints_def)
  next
    case False
    have "(0::real) \<le> 1 / 100000" by simp
    from simplifyPath_props[OF this, of pts] assms(1) obtain ys where
      "simplifyPath pts (1 / 100000) = Some ys" "ys \<noteq> []" "hd ys = hd pts" "last ys = last pts"
      "length ys \<le> length pts" by blast
    then show ?thesis using False by (simp add: storedPoints_def)
  qed
  then have b: "\<exists>ys. compressPoints sm pts = Some (map compressPoint ys) \<and> ys \<noteq> [] \<and> hd ys = hd pts \<and>
            last ys = last pts \<and> length ys \<le> length pts \<and>
            (if length pts < 10 then ys = pts else True)"
    using compressPoints_eq[of sm pts] by blast
  from a b show ?thesis by blast
qed

text \<open>C7, witness: a path of three points at the tolerance of the caller.\<close>

theorem simplify_endpoints_and_passthrough_witness:
  "meridianPath \<noteq> [] \<and> (0::real) \<le> 1 / 100000 \<and>
   (\<exists>ys. simplifyPath meridianPath (1 / 100000) = Some ys \<and> ys \<noteq> [] \<and> hd ys = hd meridianPath \<and>
            last ys = last meridianPath \<and> length ys \<le> length meridianPath) \<and>
   compressPoints StorageManager_new meridianPath = Some (map compressPoint meridianPath)"
proof -
  have h1: "meridianPath \<noteq> []" by (simp add: meridianPath_def)
  have h2: "(0::real) \<le> 1 / 100000" by simp
  have len: "length meridianPath < 10" by (simp add: meridianPath_def)
  from simplify_endpoints_and_passthrough[OF h1 h2, of StorageManager_new]
  show ?thesis using h1 len by auto
qed

text \<open>
  C7, counterexample. A path of one point with accuracy 10.4 is not simplified, but it is
  not passed through with only its coordinates rounded either: the stored accuracy is 10.
\<close>

theorem pass_through_spec_counterexample:
  "length (points (hd (routes walkSnapshot))) < 10 \<and>
   compressPoints StorageManager_new (points (hd (routes walkSnapshot))) \<noteq>
     Some (map spec_passThrough (points (hd (routes walkSnapshot)))) \<and>
   compressPoints StorageManager_new (points (hd (routes walkSnapshot))) =
     Some [JObj [(''lat'', JNum (1 / 2)), (''lng'', JNum (1 / 4)), (''timestamp'', JNum 1000),
                 (''accuracy'', JNum 10)]] \<and>
   map accuracy (points (hd (routes walkSnapshot))) = [52 / 5]"
  by (simp add: walkSnapshot_def compressPoints_def compressPoint_def spec_passThrough_def
      StorageManager_new_def Math_round_def)

text \<open>
  C6, as the code has it. A run of the application starts from the list \<open>start\<close> of areas
  restored at start-up (none on a first run), all of them ended by the time \<open>t0\<close> of the
  load, and the fixes arrive with non-decreasing timestamps from \<open>t0\<close> on. Compare the
  start, any moment of the run (after \<open>earlier\<close>) and any later moment (after
  \<open>earlier @ later\<close>): every area is still there, at its index and place, its duration
  has not decreased and a flag that was set is still set; and at both moments every area
  is either exactly as it was at the start or flagged exactly when its duration has
  reached the threshold. So an area created in the run is flagged once, at the first
  observation at which its duration reaches 3600000 ms, and a restored area is flagged
  once in the run, at the first observation that changes it with a duration of at least
  3600000 ms. Across a save and a load: the serializer writes the place, the two times
  and the duration of an area, and the area restored from that has them unchanged (the
  place rounded to six decimals) and its flag unset.
\<close>

theorem stay_area_single_run:
  assumes "areasWellFormed start t0"
    and "sorted (t0 # map (\<lambda>ob. snd (snd ob)) (earlier @ later))"
  shows "areasAdvanced start (observe earlier start) \<and>
         areasAdvanced (observe earlier start) (observe (earlier @ later) start) \<and>
         areasSettled start (observe earlier start) \<and>
         areasSettled start (observe (earlier @ later) start) \<and>
         (case restoreArea (serializeArea area) of
            Inl e \<Rightarrow> False
          | Inr v \<Rightarrow>
              asStayArea v =
                Some (area\<lparr>lat := Math_round (lat area * 1000000) / 1000000,
                           lng := Math_round (lng area * 1000000) / 1000000,
                           drawn := False\<rparr>))"
  using stay_area_run_from[OF assms]
  by (simp add: restoreArea_serialized asStayArea_restored roundedArea_def)

text \<open>
  C6, witness: an area that had lasted an hour and was flagged comes back from the store
  without its flag. In the run that follows, a fix elsewhere leaves it as restored and
  a fix at its place extends it to 3700000 ms and flags it.
\<close>

theorem stay_area_single_run_witness:
  "areasWellFormed restoredAreas 3600000 \<and>
   sorted (3600000 # map (\<lambda>ob. snd (snd ob)) (take 1 laterObservations @ drop 1 laterObservations)) \<and>
   areasAdvanced restoredAreas (observe (take 1 laterObservations) restoredAreas) \<and>
   areasAdvanced (observe (take 1 laterObservations) restoredAreas)
     (observe (take 1 laterObservations @ drop 1 laterObservations) restoredAreas) \<and>
   areasSettled restoredAreas (observe (take 1 laterObservations) restoredAreas) \<and>
   areasSettled restoredAreas (observe (take 1 laterObservations @ drop 1 laterObservations) restoredAreas) \<and>
   observe (take 1 laterObservations) restoredAreas =
     [\<lparr>lat = 0, lng = 0, areaStartTime = 0, areaEndTime = 3600000, duration = 3600000,
       drawn = False\<rparr>,
      \<lparr>lat = 0, lng = 90, areaStartTime = 3650000, areaEndTime = 3650000, duration = 0,
       drawn = False\<rparr>] \<and>
   observe (take 1 laterObservations @ drop 1 laterObservations) restoredAreas =
     [\<lparr>lat = 0, lng = 0, areaStartTime = 0, areaEndTime = 3700000, duration = 3700000,
       drawn = True\<rparr>,
      \<lparr>lat = 0, lng = 90, areaStartTime = 3650000, areaEndTime = 3650000, duration = 0,
       drawn = False\<rparr>] \<and>
   (case restoreArea (serializeArea (hd (observe (take 3 stayObservations) []))) of
      Inl e \<Rightarrow> False
    | Inr v \<Rightarrow> asStayArea v = Some (hd restoredAreas))"
proof -
  have far: "\<not> 6371000 * pi / 2 \<le> (50 :: real)" using pi_ge_two by simp
  have rev_d: "calculateDistance 0 90 0 0 = 6371000 * pi / 2"
    using calculateDistance_sym[of 0 90 0 0] by (simp add: calculateDistance_quarter)
  have w: "areasWellFormed restoredAreas 3600000"
    by (simp add: areasWellFormed_def restoredAreas_def STAY_THRESHOLD_def)
  have s: "sorted (3600000 # map (\<lambda>ob. snd (snd ob)) (take 1 laterObservations @ drop 1 laterObservations))"
    by (simp add: laterObservations_def)
  have e1: "observe (take 1 laterObservations) restoredAreas =
     [\<lparr>lat = 0, lng = 0, areaStartTime = 0, areaEndTime = 3600000, duration = 3600000,
       drawn = False\<rparr>,
      \<lparr>lat = 0, lng = 90, areaStartTime = 3650000, areaEndTime = 3650000, duration = 0,
       drawn = False\<rparr>]"
    using far
    by (simp add: laterObservations_def restoredAreas_def checkStayArea_def STAY_RADIUS_def
        STAY_THRESHOLD_def Let_def calculateDistance_quarter)
  have e2: "observe (take 1 laterObservations @ drop 1 laterObservations) restoredAreas =
     [\<lparr>lat = 0, lng = 0, areaStartTime = 0, areaEndTime = 3700000, duration = 3700000,
       drawn = True\<rparr>,
      \<lparr>lat = 0, lng = 90, areaStartTime = 3650000, areaEndTime = 3650000, duration = 0,
       drawn = False\<rparr>]"
    using far
    by (simp add: laterObservations_def restoredAreas_def checkStayArea_def STAY_RADIUS_def
        STAY_THRESHOLD_def Let_def calculateDistance_quarter rev_d numeral_2_eq_2)
  have e3: "observe (take 3 stayObservations) [] =
     [\<lparr>lat = 0, lng = 0, areaStartTime = 0, areaEndTime = 3600000, duration = 3600000,
       drawn = True\<rparr>]"
    by (simp add: stayObservations_def checkStayArea_def STAY_RADIUS_def STAY_THRESHOLD_def Let_def
        numeral_3_eq_3)
  have r: "Math_round 0 = 0" by (simp add: Math_round_def)
  from stay_area_single_run[OF w s, of "hd (observe (take 3 stayObservations) [])"]
  show ?thesis using w s e1 e2 unfolding e3
    by (simp add: restoredAreas_def r restoreArea_serialized asStayArea_restored roundedArea_def)
qed

text \<open>
  C6, counterexample. An area that reached one hour and was flagged is committed and
  loaded. The restored area has its duration of one hour and no flag; the next fix at the
  place sets the flag again, at an observation that is not the first at which the
  duration reached the threshold.
\<close>

theorem stay_flag_reload_counterexample:
  "stayAreas walkSnapshot = observe [(1 / 2, 1 / 4, 1000), (1 / 2, 1 / 4, 3601000)] [] \<and>
   map drawn (stayAreas walkSnapshot) = [True] \<and>
   (case saveToStorage roomyHost StorageManager_new 5000 10 walkSnapshot Map.empty of
      None \<Rightarrow> False
    | Some (ok, ls', logs) \<Rightarrow>
        ok \<and>
        map drawn (stayAreas (app_loadSavedData
            (asSavedData (fst (loadFromStorage roomyHost StorageManager_new ls'))) app_new)) = [False] \<and>
        map duration (stayAreas (app_loadSavedData
            (asSavedData (fst (loadFromStorage roomyHost StorageManager_new ls'))) app_new)) = [3600000] \<and>
        map drawn (checkStayArea (stayAreas (app_loadSavedData
            (asSavedData (fst (loadFromStorage roomyHost StorageManager_new ls'))) app_new))
            (1 / 2) (1 / 4) 3700000) = [True])"
proof -
  define LS where "LS = Map.empty(storageKey StorageManager_new \<mapsto>
      Json (serializedJs StorageManager_new 5000 walkSnapshot))"
  note rt = round_trip_general[OF serializeData_eq walk_fits, of 10]
  have sv: "saveToStorage roomyHost StorageManager_new 5000 10 walkSnapshot Map.empty =
      Some (True, LS, [Status_saved])"
    using rt by (simp add: LS_def del: saveToStorage.simps)
  have ld: "asSavedData (fst (loadFromStorage roomyHost StorageManager_new LS)) =
      Some \<lparr>routes = map (roundedRoute StorageManager_new) (routes walkSnapshot),
            stayAreas = map roundedArea (stayAreas walkSnapshot),
            totalDistance = Math_round (totalDistance walkSnapshot),
            savedCurrentRoute = None\<rparr>"
    using rt by (simp add: LS_def del: saveToStorage.simps)
  have areas: "stayAreas (app_loadSavedData
      (asSavedData (fst (loadFromStorage roomyHost StorageManager_new LS))) app_new) =
      [\<lparr>lat = 1 / 2, lng = 1 / 4, areaStartTime = 1000, areaEndTime = 3601000,
        duration = 3600000, drawn = False\<rparr>]"
    unfolding ld walk_rounded by (simp add: app_loadSavedData_def app_new_def)
  have o: "stayAreas walkSnapshot = observe [(1 / 2, 1 / 4, 1000), (1 / 2, 1 / 4, 3601000)] []"
    by (simp add: walkSnapshot_def checkStayArea_def STAY_RADIUS_def STAY_THRESHOLD_def Let_def)
  have md: "map drawn (stayAreas walkSnapshot) = [True]"
    by (simp add: walkSnapshot_def)
  have c: "map drawn (checkStayArea [\<lparr>lat = 1 / 2, lng = 1 / 4, areaStartTime = 1000, areaEndTime = 3601000,
       duration = 3600000, drawn = False\<rparr>] (1 / 2) (1 / 4) 3700000) = [True]"
    by (simp add: checkStayArea_def STAY_RADIUS_def STAY_THRESHOLD_def Let_def)
  show ?thesis
    unfolding sv using o md c by (simp add: areas)
qed

end
